theory Spec2Isabelle
  imports Complex_Main
begin

section \<open>Numbers: float64 with rounding abstracted away\<close>

text \<open>
  The notebook computes on numpy float64 arrays. A finite value is modelled by the real
  number it stands for; rounding, overflow and the sign of zero are not modelled. The
  special values are kept, because numpy does not raise on a division by zero or on the
  logarithm of a non-positive number: it returns an infinity or NaN (with a warning).
  The filter is given a second time with every operation rounded, in the section on
  float64 arithmetic, for the claims that rounding decides.
\<close>

datatype fl = Fin real | PInf | NInf | NaN

definition finf :: "real \<Rightarrow> fl" where
  \<comment> \<open>the infinity with the sign of \<open>s\<close>; NaN when \<open>s\<close> is zero\<close>
  "finf s = (if s = 0 then NaN else if 0 < s then PInf else NInf)"

fun fneg :: "fl \<Rightarrow> fl" where
  "fneg (Fin a) = Fin (- a)"
| "fneg PInf = NInf"
| "fneg NInf = PInf"
| "fneg NaN = NaN"

fun fadd :: "fl \<Rightarrow> fl \<Rightarrow> fl" where
  "fadd (Fin a) (Fin b) = Fin (a + b)"
| "fadd NaN _ = NaN"
| "fadd _ NaN = NaN"
| "fadd PInf NInf = NaN"
| "fadd NInf PInf = NaN"
| "fadd PInf _ = PInf"
| "fadd _ PInf = PInf"
| "fadd NInf _ = NInf"
| "fadd _ NInf = NInf"

definition fsub :: "fl \<Rightarrow> fl \<Rightarrow> fl" where
  "fsub a b = fadd a (fneg b)"

fun fmul :: "fl \<Rightarrow> fl \<Rightarrow> fl" where
  "fmul (Fin a) (Fin b) = Fin (a * b)"
| "fmul NaN _ = NaN"
| "fmul _ NaN = NaN"
| "fmul PInf (Fin b) = finf b"
| "fmul NInf (Fin b) = finf (- b)"
| "fmul (Fin a) PInf = finf a"
| "fmul (Fin a) NInf = finf (- a)"
| "fmul PInf PInf = PInf"
| "fmul PInf NInf = NInf"
| "fmul NInf PInf = NInf"
| "fmul NInf NInf = PInf"

fun fdiv :: "fl \<Rightarrow> fl \<Rightarrow> fl" where
  "fdiv (Fin a) (Fin b) = (if b = 0 then finf a else Fin (a / b))"
| "fdiv NaN _ = NaN"
| "fdiv _ NaN = NaN"
| "fdiv (Fin a) PInf = Fin 0"
| "fdiv (Fin a) NInf = Fin 0"
| "fdiv PInf (Fin b) = (if b < 0 then NInf else PInf)"
| "fdiv NInf (Fin b) = (if b < 0 then PInf else NInf)"
| "fdiv PInf _ = NaN"
| "fdiv NInf _ = NaN"

fun flog :: "fl \<Rightarrow> fl" where
  \<comment> \<open>\<open>np.log\<close>\<close>
  "flog (Fin a) = (if 0 < a then Fin (ln a) else if a = 0 then NInf else NaN)"
| "flog PInf = PInf"
| "flog NInf = NaN"
| "flog NaN = NaN"

definition fsum :: "fl list \<Rightarrow> fl" where
  \<comment> \<open>\<open>np.sum\<close> of a sequence; the sum of no number is 0\<close>
  "fsum xs = foldr fadd xs (Fin 0)"

section \<open>Errors and arrays\<close>

text \<open>
  The exceptions the notebook's code can raise: an index out of range, and numpy's
  ValueError (operands whose shapes do not fit, \<open>.item()\<close> of an array that has not
  exactly one element). The code defines no exception of its own and has no
  \<open>raise\<close> statement.
\<close>

datatype error = IndexError | ValueError

definition ebind :: "error + 'a \<Rightarrow> ('a \<Rightarrow> error + 'b) \<Rightarrow> error + 'b" where
  "ebind m f = (case m of Inl e \<Rightarrow> Inl e | Inr v \<Rightarrow> f v)"

fun for_loop :: "nat list \<Rightarrow> (nat \<Rightarrow> 's \<Rightarrow> error + 's) \<Rightarrow> 's \<Rightarrow> error + 's" where
  "for_loop [] body s = Inr s"
| "for_loop (i # is) body s = ebind (body i s) (for_loop is body)"

definition for_range :: "nat \<Rightarrow> (nat \<Rightarrow> 's \<Rightarrow> error + 's) \<Rightarrow> 's \<Rightarrow> error + 's" where
  \<comment> \<open>\<open>for i in range(n): s = body(i, s)\<close>; an exception leaves the loop\<close>
  "for_range n body s = for_loop [0..<n] body s"

text \<open>A two-dimensional array is the list of its rows.\<close>

type_synonym mat = "fl list list"

definition nrows :: "mat \<Rightarrow> nat" where
  "nrows A = length A"

definition ncols :: "mat \<Rightarrow> nat" where
  \<comment> \<open>every array of the notebook has at least one row\<close>
  "ncols A = (case A of [] \<Rightarrow> 0 | row # _ \<Rightarrow> length row)"

definition zeros :: "nat \<Rightarrow> nat \<Rightarrow> mat" where
  \<comment> \<open>\<open>np.zeros((m, n))\<close>\<close>
  "zeros m n = replicate m (replicate n (Fin 0))"

definition eye :: "nat \<Rightarrow> mat" where
  \<comment> \<open>\<open>np.eye(k)\<close>\<close>
  "eye k = map (\<lambda>i. map (\<lambda>j. if i = j then Fin 1 else Fin 0) [0..<k]) [0..<k]"

definition getitem :: "fl list \<Rightarrow> nat \<Rightarrow> error + fl" where
  \<comment> \<open>\<open>a[i]\<close> on a one-dimensional sequence, \<open>i\<close> not negative\<close>
  "getitem a i = (if i < length a then Inr (a ! i) else Inl IndexError)"

definition setitem :: "fl list \<Rightarrow> nat \<Rightarrow> fl \<Rightarrow> error + fl list" where
  "setitem a i v = (if i < length a then Inr (a[i := v]) else Inl IndexError)"

definition setitem2 :: "mat \<Rightarrow> nat \<Rightarrow> nat \<Rightarrow> fl \<Rightarrow> error + mat" where
  \<comment> \<open>\<open>A[i, j] = v\<close>\<close>
  "setitem2 A i j v =
     (if i < nrows A \<and> j < ncols A then Inr (A[i := (A ! i)[j := v]]) else Inl IndexError)"

definition tab :: "nat \<Rightarrow> nat \<Rightarrow> (nat \<Rightarrow> nat \<Rightarrow> fl) \<Rightarrow> mat" where
  \<comment> \<open>the \<open>m\<close> by \<open>n\<close> array whose entry \<open>(i, j)\<close> is \<open>f i j\<close>\<close>
  "tab m n f = map (\<lambda>i. map (\<lambda>j. f i j) [0..<n]) [0..<m]"

definition column :: "mat \<Rightarrow> nat \<Rightarrow> fl list" where
  "column A j = map (\<lambda>row. row ! j) A"

definition mT :: "mat \<Rightarrow> mat" where
  \<comment> \<open>\<open>A.T\<close>\<close>
  "mT A = map (column A) [0..<ncols A]"

definition dot :: "fl list \<Rightarrow> fl list \<Rightarrow> fl" where
  "dot u v = fsum (map2 fmul u v)"

definition mmul :: "mat \<Rightarrow> mat \<Rightarrow> mat" where
  \<comment> \<open>the matrix product, rows of \<open>A\<close> against columns of \<open>B\<close>\<close>
  "mmul A B = map (\<lambda>row. map (\<lambda>j. dot row (column B j)) [0..<ncols B]) A"

definition matmul :: "mat \<Rightarrow> mat \<Rightarrow> error + mat" where
  \<comment> \<open>\<open>A @ B\<close> on two-dimensional arrays: numpy raises ValueError unless the number of
      columns of \<open>A\<close> is the number of rows of \<open>B\<close>\<close>
  "matmul A B = (if ncols A = nrows B then Inr (mmul A B) else Inl ValueError)"

definition bdim :: "nat \<Rightarrow> nat \<Rightarrow> nat option" where
  \<comment> \<open>numpy's broadcasting of one dimension: equal sizes, or one of them is 1\<close>
  "bdim m n = (if m = n then Some m else if m = 1 then Some n else if n = 1 then Some m else None)"

definition bget :: "mat \<Rightarrow> nat \<Rightarrow> nat \<Rightarrow> fl" where
  \<comment> \<open>the entry of a broadcast array: a dimension of size 1 is repeated\<close>
  "bget A i j = A ! (if nrows A = 1 then 0 else i) ! (if ncols A = 1 then 0 else j)"

definition ewise :: "(fl \<Rightarrow> fl \<Rightarrow> fl) \<Rightarrow> mat \<Rightarrow> mat \<Rightarrow> error + mat" where
  \<comment> \<open>an elementwise binary operation of two two-dimensional arrays, with broadcasting;
      ValueError when the shapes cannot be broadcast together\<close>
  "ewise f A B =
     (case (bdim (nrows A) (nrows B), bdim (ncols A) (ncols B)) of
        (Some m, Some n) \<Rightarrow> Inr (tab m n (\<lambda>i j. f (bget A i j) (bget B i j)))
      | _ \<Rightarrow> Inl ValueError)"

definition madd :: "mat \<Rightarrow> mat \<Rightarrow> error + mat" where
  \<comment> \<open>\<open>A + B\<close>\<close>
  "madd A B = ewise fadd A B"

definition msub :: "mat \<Rightarrow> mat \<Rightarrow> error + mat" where
  \<comment> \<open>\<open>A - B\<close>\<close>
  "msub A B = ewise fsub A B"

definition smul :: "mat \<Rightarrow> fl \<Rightarrow> mat" where
  \<comment> \<open>\<open>A * s\<close> for a scalar (or one-element array) \<open>s\<close>\<close>
  "smul A s = map (map (\<lambda>v. fmul v s)) A"

definition sdiv :: "mat \<Rightarrow> fl \<Rightarrow> mat" where
  \<comment> \<open>\<open>A / s\<close> for a scalar (or one-element array) \<open>s\<close>\<close>
  "sdiv A s = map (map (\<lambda>v. fdiv v s)) A"

definition item :: "mat \<Rightarrow> error + fl" where
  \<comment> \<open>\<open>A.item()\<close>: the only element of the array, ValueError if it has not exactly one\<close>
  "item A = (case A of [[v]] \<Rightarrow> Inr v | _ \<Rightarrow> Inl ValueError)"

section \<open>The state-space builder\<close>

definition initialize_FGHQ :: "fl list \<Rightarrow> fl list \<Rightarrow> error + (mat \<times> mat \<times> mat \<times> mat)" where
  "initialize_FGHQ a b =
     (let p = length a;
          q = length b;
          k = max p (q + 1);
          F = zeros k k;
          G = zeros k 1;
          H = zeros 1 k
      in
      ebind (for_range p (\<lambda>i F. ebind (getitem a i) (\<lambda>ai. setitem2 F i 0 ai)) F) (\<lambda>F.
      ebind (for_range (k - 1) (\<lambda>i F. setitem2 F i (i + 1) (Fin 1)) F) (\<lambda>F.
      ebind (for_range q (\<lambda>i G. ebind (getitem b i) (\<lambda>bi. setitem2 G (i + 1) 0 (fneg bi))) G) (\<lambda>G.
      ebind (setitem2 G 0 0 (Fin 1)) (\<lambda>G.
      ebind (setitem2 H 0 0 (Fin 1)) (\<lambda>H.
      Inr (F, G, H, eye k)))))))"

section \<open>The likelihood evaluator\<close>

definition log_likelihood :: "fl \<Rightarrow> fl list \<Rightarrow> fl" where
  "log_likelihood sigma_hat r =
     (let N = Fin (real (length r))
      in fmul (Fin (- (1 / 2)))
           (fadd (fadd (fadd (fmul N (flog (Fin (2 * pi))))
                             (fmul N (flog sigma_hat)))
                       (fsum (map flog r)))
                 N))"

section \<open>The objective function\<close>

text \<open>
  \<open>obj_func_likelihood\<close> reads the notebook's globals \<open>N\<close> (the number of observations)
  and \<open>y\<close> (the observations); they are parameters here. The arrays \<open>e\<close> and \<open>r\<close> have the
  shape \<open>(N, 1)\<close>: each is modelled as the list of its \<open>N\<close> rows' single entries, and
  \<open>e[t]\<close>, \<open>r[t]\<close> (one-element arrays) as that entry.
\<close>

definition predict_cov :: "mat \<Rightarrow> mat \<Rightarrow> mat \<Rightarrow> error + mat" where
  \<comment> \<open>\<open>V_predict = F @ V @ F.T + G @ G.T\<close>\<close>
  "predict_cov F G V =
     ebind (matmul F V) (\<lambda>FV.
     ebind (matmul FV (mT F)) (\<lambda>FVFt.
     ebind (matmul G (mT G)) (\<lambda>GGt.
     madd FVFt GGt)))"

definition kalman_body ::
  "mat \<Rightarrow> mat \<Rightarrow> mat \<Rightarrow> fl list \<Rightarrow> nat \<Rightarrow> nat \<Rightarrow> mat \<times> mat \<times> fl list \<times> fl list
     \<Rightarrow> error + (mat \<times> mat \<times> fl list \<times> fl list)" where
  \<comment> \<open>the body of the loop \<open>for t in range(N)\<close>, on the variables \<open>x\<close>, \<open>V\<close>, \<open>e\<close>, \<open>r\<close>
      it assigns\<close>
  "kalman_body F G H y k t s =
     (case s of (x, V, e, r) \<Rightarrow>
        ebind (matmul F x) (\<lambda>x_predict.
        ebind (predict_cov F G V) (\<lambda>V_predict.
        ebind (getitem y t) (\<lambda>y_t.
        ebind (matmul H x_predict) (\<lambda>Hx.
        ebind (item Hx) (\<lambda>hx.
        ebind (setitem e t (fsub y_t hx)) (\<lambda>e.
        ebind (matmul H V_predict) (\<lambda>HV.
        ebind (matmul HV (mT H)) (\<lambda>HVHt.
        ebind (item HVHt) (\<lambda>hvh.
        ebind (setitem r t hvh) (\<lambda>r.
        ebind (matmul V_predict (mT H)) (\<lambda>VHt.
        ebind (getitem r t) (\<lambda>r_t.
        (let K = sdiv VHt r_t in
        ebind (getitem e t) (\<lambda>e_t.
        ebind (madd x_predict (smul K e_t)) (\<lambda>x.
        ebind (matmul K H) (\<lambda>KH.
        ebind (msub (eye k) KH) (\<lambda>IKH.
        ebind (matmul IKH V_predict) (\<lambda>V.
        Inr (x, V, e, r))))))))))))))))))))"

definition kalman_init :: "nat \<Rightarrow> nat \<Rightarrow> mat \<times> mat \<times> fl list \<times> fl list" where
  \<comment> \<open>\<open>x = np.zeros((k, 1))\<close>, \<open>V = np.eye(k) * 100\<close>, \<open>e = np.zeros((N, 1))\<close>,
      \<open>r = np.zeros((N, 1))\<close>\<close>
  "kalman_init N k =
     (zeros k 1, smul (eye k) (Fin 100), replicate N (Fin 0), replicate N (Fin 0))"

definition kalman_filter ::
  "mat \<Rightarrow> mat \<Rightarrow> mat \<Rightarrow> nat \<Rightarrow> fl list \<Rightarrow> nat \<Rightarrow> error + (fl list \<times> fl list)" where
  \<comment> \<open>the Kalman filter of \<open>obj_func_likelihood\<close>, from the initial values to the end
      of the loop, as a function of the variables it reads; it yields \<open>e\<close> and \<open>r\<close>\<close>
  "kalman_filter F G H N y k =
     ebind (for_range N (kalman_body F G H y k) (kalman_init N k)) (\<lambda>(x, V, e, r).
     Inr (e, r))"

definition profile_sigma :: "fl list \<Rightarrow> fl list \<Rightarrow> nat \<Rightarrow> fl" where
  \<comment> \<open>\<open>np.sum(e**2 / r) / N\<close>\<close>
  "profile_sigma e r N = fdiv (fsum (map2 fdiv (map (\<lambda>v. fmul v v) e) r)) (Fin (real N))"

definition obj_func_likelihood :: "nat \<Rightarrow> fl list \<Rightarrow> fl list \<Rightarrow> error + fl" where
  "obj_func_likelihood N y theta =
     (let p = 3;
          q = 2;
          a = take p theta;
          b = take q (drop p theta);
          k = max p (q + 1)
      in
      ebind (initialize_FGHQ a b) (\<lambda>(F, G, H, Q).
      ebind (kalman_filter F G H N y k) (\<lambda>(e, r).
      (let sigma_hat = profile_sigma e r N;
           log_lik = log_likelihood sigma_hat r
       in Inr (fneg log_lik)))))"

section \<open>The objective function on a store\<close>

text \<open>
  numpy arrays are mutable objects, and the notebook's functions write into arrays by
  index. To state what a call of the objective leaves behind, its code is given once
  more on an explicit store. A variable holds the address of its array. An index
  assignment \<open>A[i, j] = v\<close> writes into the array at that address. A slice \<open>theta[i:j]\<close>
  is a view: it shares the memory of \<open>theta\<close>. An assignment \<open>x = \<dots>\<close> of an array
  expression evaluates the expression on the store and binds the variable to a newly
  allocated array; the arrays an expression builds on its way (and the read-only views
  \<open>F.T\<close>, \<open>H.T\<close>) are not kept, no variable refers to them. The store also holds the
  two globals the objective reads: the number \<open>N\<close> and the address of \<open>y\<close>. An exception
  leaves the store as it is at that moment.

  The arrays indexed by one index (\<open>theta\<close>, \<open>y\<close>, and \<open>e\<close> and \<open>r\<close> as above) and the
  two-dimensional arrays are kept in two regions of the store; an address is an index
  into its region, and allocation appends.
\<close>

record store =
  g_N :: nat
  g_y :: nat
  vecs :: "fl list list"
  mats :: "mat list"

type_synonym 'a hm = "store \<Rightarrow> (error + 'a) \<times> store"

definition hret :: "'a \<Rightarrow> 'a hm" where
  "hret v s = (Inr v, s)"

definition hbind :: "'a hm \<Rightarrow> ('a \<Rightarrow> 'b hm) \<Rightarrow> 'b hm" where
  "hbind m f s = (case m s of (Inl e, s') \<Rightarrow> (Inl e, s') | (Inr v, s') \<Rightarrow> f v s')"

fun h_for_loop :: "nat list \<Rightarrow> (nat \<Rightarrow> 'c \<Rightarrow> 'c hm) \<Rightarrow> 'c \<Rightarrow> 'c hm" where
  "h_for_loop [] body c = hret c"
| "h_for_loop (i # is) body c = hbind (body i c) (h_for_loop is body)"

definition h_for_range :: "nat \<Rightarrow> (nat \<Rightarrow> 'c \<Rightarrow> 'c hm) \<Rightarrow> 'c \<Rightarrow> 'c hm" where
  \<comment> \<open>\<open>for i in range(n)\<close>, on the local variables \<open>c\<close> the body rebinds\<close>
  "h_for_range n body c = h_for_loop [0..<n] body c"

definition eval_expr :: "(store \<Rightarrow> error + 'a) \<Rightarrow> 'a hm" where
  \<comment> \<open>the value of an expression, which reads the store and leaves it as it is\<close>
  "eval_expr f s = (f s, s)"

definition new_vec :: "fl list \<Rightarrow> nat hm" where
  "new_vec v s = (Inr (length (vecs s)), s\<lparr>vecs := vecs s @ [v]\<rparr>)"

definition new_mat :: "mat \<Rightarrow> nat hm" where
  "new_mat A s = (Inr (length (mats s)), s\<lparr>mats := mats s @ [A]\<rparr>)"

definition write_vec :: "nat \<Rightarrow> nat \<Rightarrow> fl \<Rightarrow> unit hm" where
  \<comment> \<open>\<open>a[i] = v\<close> for the array at the address \<open>p\<close>\<close>
  "write_vec p i v s =
     (case setitem (vecs s ! p) i v of
        Inl err \<Rightarrow> (Inl err, s)
      | Inr a \<Rightarrow> (Inr (), s\<lparr>vecs := (vecs s)[p := a]\<rparr>))"

definition write_mat :: "nat \<Rightarrow> nat \<Rightarrow> nat \<Rightarrow> fl \<Rightarrow> unit hm" where
  \<comment> \<open>\<open>A[i, j] = v\<close> for the array at the address \<open>p\<close>\<close>
  "write_mat p i j v s =
     (case setitem2 (mats s ! p) i j v of
        Inl err \<Rightarrow> (Inl err, s)
      | Inr A \<Rightarrow> (Inr (), s\<lparr>mats := (mats s)[p := A]\<rparr>))"

datatype view = View nat nat nat

definition slice :: "nat \<Rightarrow> nat \<Rightarrow> nat \<Rightarrow> view hm" where
  \<comment> \<open>\<open>theta[i:j]\<close> for the array at the address \<open>p\<close>: the view from the index \<open>i\<close> to
      the index \<open>j\<close>, both cut at the length of the array; no entry is copied\<close>
  "slice p i j s =
     (let n = length (vecs s ! p) in (Inr (View p (min i n) (min j n - min i n)), s))"

fun view_len :: "view \<Rightarrow> nat" where
  "view_len (View p start n) = n"

fun view_get :: "view \<Rightarrow> nat \<Rightarrow> fl hm" where
  \<comment> \<open>\<open>a[i]\<close> for a view \<open>a\<close>\<close>
  "view_get (View p start n) i s =
     (if i < n then (Inr (vecs s ! p ! (start + i)), s) else (Inl IndexError, s))"

definition h_initialize_FGHQ :: "view \<Rightarrow> view \<Rightarrow> (nat \<times> nat \<times> nat \<times> nat) hm" where
  "h_initialize_FGHQ a b =
     (let p = view_len a;
          q = view_len b;
          k = max p (q + 1)
      in
      hbind (new_mat (zeros k k)) (\<lambda>F.
      hbind (new_mat (zeros k 1)) (\<lambda>G.
      hbind (new_mat (zeros 1 k)) (\<lambda>H.
      hbind (h_for_range p (\<lambda>i u. hbind (view_get a i) (\<lambda>ai. write_mat F i 0 ai)) ()) (\<lambda>u.
      hbind (h_for_range (k - 1) (\<lambda>i u. write_mat F i (i + 1) (Fin 1)) ()) (\<lambda>u.
      hbind (h_for_range q (\<lambda>i u. hbind (view_get b i) (\<lambda>bi. write_mat G (i + 1) 0 (fneg bi))) ()) (\<lambda>u.
      hbind (write_mat G 0 0 (Fin 1)) (\<lambda>u.
      hbind (write_mat H 0 0 (Fin 1)) (\<lambda>u.
      hbind (new_mat (eye k)) (\<lambda>Q.
      hret (F, G, H, Q)))))))))))"

definition h_kalman_body ::
  "nat \<Rightarrow> nat \<Rightarrow> nat \<Rightarrow> nat \<Rightarrow> nat \<Rightarrow> nat \<Rightarrow> nat \<Rightarrow> nat \<times> nat \<Rightarrow> (nat \<times> nat) hm" where
  \<comment> \<open>the body of the loop \<open>for t in range(N)\<close>: \<open>F\<close>, \<open>G\<close>, \<open>H\<close>, \<open>e\<close>, \<open>r\<close> are the
      addresses these variables hold throughout, \<open>x\<close> and \<open>V\<close> the addresses of the
      variables the body rebinds\<close>
  "h_kalman_body F G H e r k t c =
     (case c of (x, V) \<Rightarrow>
        hbind (eval_expr (\<lambda>s. matmul (mats s ! F) (mats s ! x))) (\<lambda>A.
        hbind (new_mat A) (\<lambda>x_predict.
        hbind (eval_expr (\<lambda>s. predict_cov (mats s ! F) (mats s ! G) (mats s ! V))) (\<lambda>A.
        hbind (new_mat A) (\<lambda>V_predict.
        hbind (eval_expr (\<lambda>s.
                 ebind (getitem (vecs s ! g_y s) t) (\<lambda>y_t.
                 ebind (matmul (mats s ! H) (mats s ! x_predict)) (\<lambda>Hx.
                 ebind (item Hx) (\<lambda>hx.
                 Inr (fsub y_t hx)))))) (\<lambda>v.
        hbind (write_vec e t v) (\<lambda>u.
        hbind (eval_expr (\<lambda>s.
                 ebind (matmul (mats s ! H) (mats s ! V_predict)) (\<lambda>HV.
                 ebind (matmul HV (mT (mats s ! H))) (\<lambda>HVHt.
                 item HVHt)))) (\<lambda>v.
        hbind (write_vec r t v) (\<lambda>u.
        hbind (eval_expr (\<lambda>s.
                 ebind (matmul (mats s ! V_predict) (mT (mats s ! H))) (\<lambda>VHt.
                 ebind (getitem (vecs s ! r) t) (\<lambda>r_t.
                 Inr (sdiv VHt r_t))))) (\<lambda>A.
        hbind (new_mat A) (\<lambda>K.
        hbind (eval_expr (\<lambda>s.
                 ebind (getitem (vecs s ! e) t) (\<lambda>e_t.
                 madd (mats s ! x_predict) (smul (mats s ! K) e_t)))) (\<lambda>A.
        hbind (new_mat A) (\<lambda>x.
        hbind (eval_expr (\<lambda>s.
                 ebind (matmul (mats s ! K) (mats s ! H)) (\<lambda>KH.
                 ebind (msub (eye k) KH) (\<lambda>IKH.
                 matmul IKH (mats s ! V_predict))))) (\<lambda>A.
        hbind (new_mat A) (\<lambda>V.
        hret (x, V))))))))))))))))"

definition h_kalman_filter :: "nat \<Rightarrow> nat \<Rightarrow> nat \<Rightarrow> nat \<Rightarrow> (nat \<times> nat) hm" where
  \<comment> \<open>the Kalman filter of \<open>obj_func_likelihood\<close>, from the initial values to the end
      of the loop; it yields the addresses of \<open>e\<close> and \<open>r\<close>\<close>
  "h_kalman_filter F G H k =
     hbind (new_mat (zeros k 1)) (\<lambda>x.
     hbind (new_mat (smul (eye k) (Fin 100))) (\<lambda>V.
     hbind (eval_expr (\<lambda>s. Inr (replicate (g_N s) (Fin 0)))) (\<lambda>z.
     hbind (new_vec z) (\<lambda>e.
     hbind (eval_expr (\<lambda>s. Inr (replicate (g_N s) (Fin 0)))) (\<lambda>z.
     hbind (new_vec z) (\<lambda>r.
     hbind (eval_expr (\<lambda>s. Inr (g_N s))) (\<lambda>n.
     hbind (h_for_range n (h_kalman_body F G H e r k) (x, V)) (\<lambda>c.
     hret (e, r)))))))))"

definition h_obj_func_likelihood :: "nat \<Rightarrow> fl hm" where
  \<comment> \<open>\<open>obj_func_likelihood(theta)\<close> for the array \<open>theta\<close> at the given address\<close>
  "h_obj_func_likelihood theta =
     (let p = 3;
          q = 2
      in
      hbind (slice theta 0 p) (\<lambda>a.
      hbind (slice theta p (p + q)) (\<lambda>b.
      (let k = max p (q + 1) in
      hbind (h_initialize_FGHQ a b) (\<lambda>(F, G, H, Q).
      hbind (h_kalman_filter F G H k) (\<lambda>(e, r).
      hbind (eval_expr (\<lambda>s. Inr (profile_sigma (vecs s ! e) (vecs s ! r) (g_N s)))) (\<lambda>sigma_hat.
      hbind (eval_expr (\<lambda>s. Inr (log_likelihood sigma_hat (vecs s ! r)))) (\<lambda>log_lik.
      hret (fneg log_lik)))))))))"

definition unchanged :: "store \<Rightarrow> store \<Rightarrow> bool" where
  \<comment> \<open>the store \<open>s'\<close> has the globals of \<open>s\<close> and every array of \<open>s\<close>, each at its
      address and with its entries; it may have more arrays\<close>
  "unchanged s s' =
     (g_N s' = g_N s \<and> g_y s' = g_y s
      \<and> take (length (vecs s)) (vecs s') = vecs s
      \<and> take (length (mats s)) (mats s') = mats s)"

text \<open>
  For the proofs: what holds of the store at the head of the filter's loop, in a call
  that started in the store \<open>s0\<close>.
\<close>

definition kinv ::
  "store \<Rightarrow> nat \<Rightarrow> nat \<Rightarrow> nat \<Rightarrow> nat \<Rightarrow> nat \<Rightarrow> mat \<Rightarrow> mat \<Rightarrow> mat \<Rightarrow> store \<Rightarrow> nat \<times> nat \<Rightarrow> bool" where
  "kinv s0 F G H e r Fm Gm Hm s c =
     (unchanged s0 s \<and> g_y s0 < length (vecs s0)
      \<and> length (vecs s0) \<le> e \<and> length (vecs s0) \<le> r \<and> e \<noteq> r
      \<and> e < length (vecs s) \<and> r < length (vecs s)
      \<and> F < length (mats s) \<and> G < length (mats s) \<and> H < length (mats s)
      \<and> fst c < length (mats s) \<and> snd c < length (mats s)
      \<and> mats s ! F = Fm \<and> mats s ! G = Gm \<and> mats s ! H = Hm)"

section \<open>The specification's words\<close>

text \<open>
  The state-space matrices as the specification describes them, for the coefficient
  sequences \<open>a\<close> (autoregressive) and \<open>b\<close> (moving average).
\<close>

definition spec_F :: "fl list \<Rightarrow> fl list \<Rightarrow> mat" where
  "spec_F a b =
     (let p = length a; q = length b; k = max p (q + 1)
      in tab k k (\<lambda>i j. if j = 0 \<and> i < p then a ! i else if j = i + 1 then Fin 1 else Fin 0))"

definition spec_G :: "fl list \<Rightarrow> fl list \<Rightarrow> mat" where
  "spec_G a b =
     (let p = length a; q = length b; k = max p (q + 1)
      in tab k 1 (\<lambda>i j. if i = 0 then Fin 1 else if i - 1 < q then fneg (b ! (i - 1)) else Fin 0))"

definition spec_H :: "fl list \<Rightarrow> fl list \<Rightarrow> mat" where
  "spec_H a b =
     (let p = length a; q = length b; k = max p (q + 1)
      in tab 1 k (\<lambda>i j. if j = 0 then Fin 1 else Fin 0))"

text \<open>
  The Kalman recursion as the specification writes it: matrix algebra without a shape
  check, one step per observation, the innovations and their variances collected in
  order.
\<close>

definition mplus :: "mat \<Rightarrow> mat \<Rightarrow> mat" where
  "mplus A B = map2 (map2 fadd) A B"

definition mminus :: "mat \<Rightarrow> mat \<Rightarrow> mat" where
  "mminus A B = map2 (map2 fsub) A B"

definition scalar :: "mat \<Rightarrow> fl" where
  \<comment> \<open>a one by one matrix read as a number\<close>
  "scalar A = hd (hd A)"

definition spec_step ::
  "nat \<Rightarrow> mat \<Rightarrow> mat \<Rightarrow> mat \<Rightarrow> mat \<times> mat \<Rightarrow> fl \<Rightarrow> (mat \<times> mat) \<times> fl \<times> fl" where
  "spec_step k F G H s y_t =
     (case s of (x, V) \<Rightarrow>
        (let x_pred = mmul F x;
             V_pred = mplus (mmul (mmul F V) (mT F)) (mmul G (mT G));
             e_t = fsub y_t (scalar (mmul H x_pred));
             r_t = scalar (mmul (mmul H V_pred) (mT H));
             K = sdiv (mmul V_pred (mT H)) r_t;
             x' = mplus x_pred (smul K e_t);
             V' = mmul (mminus (eye k) (mmul K H)) V_pred
         in ((x', V'), e_t, r_t)))"

fun spec_filter ::
  "nat \<Rightarrow> mat \<Rightarrow> mat \<Rightarrow> mat \<Rightarrow> mat \<times> mat \<Rightarrow> fl list \<Rightarrow> fl list \<times> fl list" where
  "spec_filter k F G H s [] = ([], [])"
| "spec_filter k F G H s (y_t # ys) =
     (case spec_step k F G H s y_t of
        (s', e_t, r_t) \<Rightarrow>
          (case spec_filter k F G H s' ys of (es, rs) \<Rightarrow> (e_t # es, r_t # rs)))"

definition spec_kalman :: "nat \<Rightarrow> mat \<Rightarrow> mat \<Rightarrow> mat \<Rightarrow> fl list \<Rightarrow> fl list \<times> fl list" where
  \<comment> \<open>from \<open>x = 0\<close> and \<open>V = 100 I\<close>\<close>
  "spec_kalman k F G H y =
     spec_filter k F G H
       (tab k 1 (\<lambda>i j. Fin 0), tab k k (\<lambda>i j. if i = j then Fin 100 else Fin 0)) y"

definition spec_state :: "nat \<Rightarrow> mat \<Rightarrow> mat \<Rightarrow> mat \<Rightarrow> mat \<times> mat \<Rightarrow> fl list \<Rightarrow> mat \<times> mat" where
  \<comment> \<open>the state \<open>(x, V)\<close> the recursion has reached after the observations \<open>ys\<close>\<close>
  "spec_state k F G H s ys = foldl (\<lambda>s y_t. fst (spec_step k F G H s y_t)) s ys"

definition is_mat :: "nat \<Rightarrow> nat \<Rightarrow> mat \<Rightarrow> bool" where
  \<comment> \<open>an array of shape \<open>(m, n)\<close>\<close>
  "is_mat m n A = (length A = m \<and> (\<forall>row \<in> set A. length row = n))"


definition spec_log_L :: "real \<Rightarrow> real list \<Rightarrow> real" where
  "spec_log_L s rs =
     - (1 / 2) * (real (length rs) * ln (2 * pi) + real (length rs) * ln s
                  + sum_list (map ln rs) + real (length rs))"

definition is_fin :: "fl \<Rightarrow> bool" where
  \<comment> \<open>a finite number: neither an infinity nor NaN\<close>
  "is_fin v = (case v of Fin x \<Rightarrow> True | _ \<Rightarrow> False)"

section \<open>Symmetric and positive semi-definite matrices\<close>

definition real_of :: "fl \<Rightarrow> real" where
  \<comment> \<open>the real number a finite value stands for\<close>
  "real_of v = (case v of Fin x \<Rightarrow> x | _ \<Rightarrow> 0)"





text \<open>
  For the proofs: matrices of real numbers as functions of the two indices, the
  bilinear and the quadratic form of one, and the two steps of the covariance
  recursion on them (for the observation matrix \<open>H = (1, 0, \<dots>, 0)\<close>).
\<close>

definition lift :: "nat \<Rightarrow> nat \<Rightarrow> (nat \<Rightarrow> nat \<Rightarrow> real) \<Rightarrow> mat" where
  "lift m n A = tab m n (\<lambda>i j. Fin (A i j))"

definition bil :: "nat \<Rightarrow> (nat \<Rightarrow> nat \<Rightarrow> real) \<Rightarrow> (nat \<Rightarrow> real) \<Rightarrow> (nat \<Rightarrow> real) \<Rightarrow> real" where
  "bil k A u v = (\<Sum>i<k. \<Sum>j<k. u i * A i j * v j)"

definition qf :: "nat \<Rightarrow> (nat \<Rightarrow> nat \<Rightarrow> real) \<Rightarrow> (nat \<Rightarrow> real) \<Rightarrow> real" where
  "qf k A v = (\<Sum>i<k. \<Sum>j<k. v i * A i j * v j)"

definition rsym :: "nat \<Rightarrow> (nat \<Rightarrow> nat \<Rightarrow> real) \<Rightarrow> bool" where
  "rsym k A = (\<forall>i<k. \<forall>j<k. A i j = A j i)"

definition rpsd :: "nat \<Rightarrow> (nat \<Rightarrow> nat \<Rightarrow> real) \<Rightarrow> bool" where
  "rpsd k A = (\<forall>v. 0 \<le> qf k A v)"

definition rpredict ::
  "nat \<Rightarrow> (nat \<Rightarrow> nat \<Rightarrow> real) \<Rightarrow> (nat \<Rightarrow> real) \<Rightarrow> (nat \<Rightarrow> nat \<Rightarrow> real) \<Rightarrow> nat \<Rightarrow> nat \<Rightarrow> real" where
  \<comment> \<open>\<open>F V F\<^sup>T + g g\<^sup>T\<close>\<close>
  "rpredict k F g V i j = (\<Sum>l<k. (\<Sum>m<k. F i m * V m l) * F j l) + g i * g j"

definition rupdate :: "(nat \<Rightarrow> nat \<Rightarrow> real) \<Rightarrow> nat \<Rightarrow> nat \<Rightarrow> real" where
  \<comment> \<open>\<open>(I - K H) P\<close> for \<open>H = (1, 0, \<dots>, 0)\<close> and \<open>K = P H\<^sup>T / (H P H\<^sup>T)\<close>\<close>
  "rupdate P i j = P i j - P i 0 * P 0 j / P 0 0"

definition cov_inv :: "nat \<Rightarrow> mat \<times> mat \<Rightarrow> bool" where
  \<comment> \<open>the invariant of the recursion's state \<open>(x, V)\<close>: \<open>V\<close> is a finite, symmetric,
      positive semi-definite matrix\<close>
  "cov_inv k s = (is_mat k 1 (fst s) \<and> (\<exists>Vr. snd s = lift k k Vr \<and> rsym k Vr \<and> rpsd k Vr))"

section \<open>The filter in float64 arithmetic\<close>

text \<open>
  Above, a finite float64 value is the real number it stands for and an operation
  returns the exact result. Below, every arithmetic operation of the filter rounds its
  result to float64 as IEEE 754 prescribes (binary64, round to nearest, ties to even),
  which is what numpy's \<open>+\<close>, \<open>-\<close>, \<open>*\<close> and \<open>/\<close> do. For the matrix product numpy calls the
  BLAS library; the model accumulates each entry in the order of the index, every
  product and every sum rounded, as the reference implementation of BLAS does.
\<close>

definition pow2 :: "int \<Rightarrow> real" where
  "pow2 e = (if 0 \<le> e then 2 ^ nat e else 1 / 2 ^ nat (- e))"

definition expo :: "real \<Rightarrow> int" where
  \<comment> \<open>the exponent of \<open>x > 0\<close>: the largest \<open>e\<close> from -1022 to 1023 with \<open>2\<^sup>e \<le> x\<close>
      (found bit by bit), and -1022 for a smaller \<open>x\<close>, a subnormal number\<close>
  "expo x = fold (\<lambda>w e. if e + w \<le> 1023 \<and> pow2 (e + w) \<le> x then e + w else e)
              [1024, 512, 256, 128, 64, 32, 16, 8, 4, 2, 1] (- 1022)"

definition ties_to_even :: "int \<Rightarrow> real \<Rightarrow> int" where
  \<comment> \<open>for \<open>n = \<lfloor>x + 1/2\<rfloor>\<close>: the integer nearest to \<open>x\<close>, the even one when \<open>x\<close> is half way
      between two\<close>
  "ties_to_even n x = (if odd n \<and> of_int n = x + 1 / 2 then n - 1 else n)"

definition nearest_even :: "real \<Rightarrow> int" where
  "nearest_even x = ties_to_even \<lfloor>x + 1 / 2\<rfloor> x"

definition on_grid :: "real \<Rightarrow> real \<Rightarrow> real" where
  \<comment> \<open>the multiple of \<open>q\<close> nearest to \<open>x\<close>\<close>
  "on_grid q x = q * of_int (nearest_even (x / q))"

definition overflow :: "real \<Rightarrow> fl" where
  "overflow v = (if 2 ^ 1024 \<le> v then PInf else if v \<le> - (2 ^ 1024) then NInf else Fin v)"

definition rnd :: "real \<Rightarrow> fl" where
  \<comment> \<open>the float64 value of the real number \<open>x\<close>: the nearest number with 53 significant
      bits (on the grid of \<open>2\<^sup>-\<^sup>1\<^sup>0\<^sup>7\<^sup>4\<close> for a subnormal number), an infinity when that
      number reaches \<open>2\<^sup>1\<^sup>0\<^sup>2\<^sup>4\<close>\<close>
  "rnd x = (if x = 0 then Fin 0 else overflow (on_grid (pow2 (expo \<bar>x\<bar> - 52)) x))"

fun fround :: "fl \<Rightarrow> fl" where
  "fround (Fin x) = rnd x"
| "fround v = v"

definition fadd64 :: "fl \<Rightarrow> fl \<Rightarrow> fl" where
  "fadd64 a b = fround (fadd a b)"

definition fsub64 :: "fl \<Rightarrow> fl \<Rightarrow> fl" where
  "fsub64 a b = fround (fsub a b)"

definition fmul64 :: "fl \<Rightarrow> fl \<Rightarrow> fl" where
  "fmul64 a b = fround (fmul a b)"

definition fdiv64 :: "fl \<Rightarrow> fl \<Rightarrow> fl" where
  "fdiv64 a b = fround (fdiv a b)"

definition dot64 :: "fl list \<Rightarrow> fl list \<Rightarrow> fl" where
  "dot64 u v = foldl fadd64 (Fin 0) (map2 fmul64 u v)"

definition mmul64 :: "mat \<Rightarrow> mat \<Rightarrow> mat" where
  "mmul64 A B = map (\<lambda>row. map (\<lambda>j. dot64 row (column B j)) [0..<ncols B]) A"

definition matmul64 :: "mat \<Rightarrow> mat \<Rightarrow> error + mat" where
  \<comment> \<open>\<open>A @ B\<close>\<close>
  "matmul64 A B = (if ncols A = nrows B then Inr (mmul64 A B) else Inl ValueError)"

definition madd64 :: "mat \<Rightarrow> mat \<Rightarrow> error + mat" where
  \<comment> \<open>\<open>A + B\<close>\<close>
  "madd64 A B = ewise fadd64 A B"

definition msub64 :: "mat \<Rightarrow> mat \<Rightarrow> error + mat" where
  \<comment> \<open>\<open>A - B\<close>\<close>
  "msub64 A B = ewise fsub64 A B"

definition smul64 :: "mat \<Rightarrow> fl \<Rightarrow> mat" where
  \<comment> \<open>\<open>A * s\<close>\<close>
  "smul64 A s = map (map (\<lambda>v. fmul64 v s)) A"

definition sdiv64 :: "mat \<Rightarrow> fl \<Rightarrow> mat" where
  \<comment> \<open>\<open>A / s\<close>\<close>
  "sdiv64 A s = map (map (\<lambda>v. fdiv64 v s)) A"

definition predict_cov64 :: "mat \<Rightarrow> mat \<Rightarrow> mat \<Rightarrow> error + mat" where
  \<comment> \<open>\<open>V_predict = F @ V @ F.T + G @ G.T\<close>\<close>
  "predict_cov64 F G V =
     ebind (matmul64 F V) (\<lambda>FV.
     ebind (matmul64 FV (mT F)) (\<lambda>FVFt.
     ebind (matmul64 G (mT G)) (\<lambda>GGt.
     madd64 FVFt GGt)))"

definition kalman_body64 ::
  "mat \<Rightarrow> mat \<Rightarrow> mat \<Rightarrow> fl list \<Rightarrow> nat \<Rightarrow> nat \<Rightarrow> mat \<times> mat \<times> fl list \<times> fl list
     \<Rightarrow> error + (mat \<times> mat \<times> fl list \<times> fl list)" where
  "kalman_body64 F G H y k t s =
     (case s of (x, V, e, r) \<Rightarrow>
        ebind (matmul64 F x) (\<lambda>x_predict.
        ebind (predict_cov64 F G V) (\<lambda>V_predict.
        ebind (getitem y t) (\<lambda>y_t.
        ebind (matmul64 H x_predict) (\<lambda>Hx.
        ebind (item Hx) (\<lambda>hx.
        ebind (setitem e t (fsub64 y_t hx)) (\<lambda>e.
        ebind (matmul64 H V_predict) (\<lambda>HV.
        ebind (matmul64 HV (mT H)) (\<lambda>HVHt.
        ebind (item HVHt) (\<lambda>hvh.
        ebind (setitem r t hvh) (\<lambda>r.
        ebind (matmul64 V_predict (mT H)) (\<lambda>VHt.
        ebind (getitem r t) (\<lambda>r_t.
        (let K = sdiv64 VHt r_t in
        ebind (getitem e t) (\<lambda>e_t.
        ebind (madd64 x_predict (smul64 K e_t)) (\<lambda>x.
        ebind (matmul64 K H) (\<lambda>KH.
        ebind (msub64 (eye k) KH) (\<lambda>IKH.
        ebind (matmul64 IKH V_predict) (\<lambda>V.
        Inr (x, V, e, r))))))))))))))))))))"

definition kalman_init64 :: "nat \<Rightarrow> nat \<Rightarrow> mat \<times> mat \<times> fl list \<times> fl list" where
  \<comment> \<open>\<open>x = np.zeros((k, 1))\<close>, \<open>V = np.eye(k) * 100\<close>, \<open>e = np.zeros((N, 1))\<close>,
      \<open>r = np.zeros((N, 1))\<close>\<close>
  "kalman_init64 N k =
     (zeros k 1, smul64 (eye k) (Fin 100), replicate N (Fin 0), replicate N (Fin 0))"

definition kalman_filter64 ::
  "mat \<Rightarrow> mat \<Rightarrow> mat \<Rightarrow> nat \<Rightarrow> fl list \<Rightarrow> nat \<Rightarrow> error + (fl list \<times> fl list)" where
  \<comment> \<open>the Kalman filter of \<open>obj_func_likelihood\<close>, from the initial values to the end
      of the loop; it yields \<open>e\<close> and \<open>r\<close>\<close>
  "kalman_filter64 F G H N y k =
     ebind (for_range N (kalman_body64 F G H y k) (kalman_init64 N k)) (\<lambda>(x, V, e, r).
     Inr (e, r))"

text \<open>
  The recursion as the specification writes it, in float64 arithmetic: no shape is
  checked and no value is tested; the gain is the quotient by \<open>r[t]\<close>, whatever \<open>r[t]\<close> is.
\<close>

definition mplus64 :: "mat \<Rightarrow> mat \<Rightarrow> mat" where
  "mplus64 A B = map2 (map2 fadd64) A B"

definition mminus64 :: "mat \<Rightarrow> mat \<Rightarrow> mat" where
  "mminus64 A B = map2 (map2 fsub64) A B"

definition spec_step64 ::
  "nat \<Rightarrow> mat \<Rightarrow> mat \<Rightarrow> mat \<Rightarrow> mat \<times> mat \<Rightarrow> fl \<Rightarrow> (mat \<times> mat) \<times> fl \<times> fl" where
  "spec_step64 k F G H s y_t =
     (case s of (x, V) \<Rightarrow>
        (let x_pred = mmul64 F x;
             V_pred = mplus64 (mmul64 (mmul64 F V) (mT F)) (mmul64 G (mT G));
             e_t = fsub64 y_t (scalar (mmul64 H x_pred));
             r_t = scalar (mmul64 (mmul64 H V_pred) (mT H));
             K = sdiv64 (mmul64 V_pred (mT H)) r_t;
             x' = mplus64 x_pred (smul64 K e_t);
             V' = mmul64 (mminus64 (eye k) (mmul64 K H)) V_pred
         in ((x', V'), e_t, r_t)))"

fun spec_filter64 ::
  "nat \<Rightarrow> mat \<Rightarrow> mat \<Rightarrow> mat \<Rightarrow> mat \<times> mat \<Rightarrow> fl list \<Rightarrow> fl list \<times> fl list" where
  "spec_filter64 k F G H s [] = ([], [])"
| "spec_filter64 k F G H s (y_t # ys) =
     (case spec_step64 k F G H s y_t of
        (s', e_t, r_t) \<Rightarrow>
          (case spec_filter64 k F G H s' ys of (es, rs) \<Rightarrow> (e_t # es, r_t # rs)))"

definition spec_kalman64 :: "nat \<Rightarrow> mat \<Rightarrow> mat \<Rightarrow> mat \<Rightarrow> fl list \<Rightarrow> fl list \<times> fl list" where
  \<comment> \<open>from \<open>x = 0\<close> and \<open>V = 100 I\<close>\<close>
  "spec_kalman64 k F G H y =
     spec_filter64 k F G H
       (tab k 1 (\<lambda>i j. Fin 0), tab k k (\<lambda>i j. if i = j then Fin 100 else Fin 0)) y"

definition spec_state64 :: "nat \<Rightarrow> mat \<Rightarrow> mat \<Rightarrow> mat \<Rightarrow> mat \<times> mat \<Rightarrow> fl list \<Rightarrow> mat \<times> mat" where
  \<comment> \<open>the state \<open>(x, V)\<close> the recursion has reached after the observations \<open>ys\<close>\<close>
  "spec_state64 k F G H s ys = foldl (\<lambda>s y_t. fst (spec_step64 k F G H s y_t)) s ys"


section \<open>Arrays as tables\<close>

lemma ebind_Inr [simp]: "ebind (Inr v) f = f v"
  by (simp add: ebind_def)

lemma ebind_Inl [simp]: "ebind (Inl e) f = Inl e"
  by (simp add: ebind_def)

lemma tab_cong: "(\<And>i j. i < m \<Longrightarrow> j < n \<Longrightarrow> f i j = g i j) \<Longrightarrow> tab m n f = tab m n g"
  by (simp add: tab_def)

lemma nrows_tab [simp]: "nrows (tab m n f) = m"
  by (simp add: nrows_def tab_def)

lemma ncols_tab [simp]: "0 < m \<Longrightarrow> ncols (tab m n f) = n"
  by (simp add: ncols_def tab_def upt_conv_Cons)

lemma tab_nth [simp]: "i < m \<Longrightarrow> j < n \<Longrightarrow> tab m n f ! i ! j = f i j"
  by (simp add: tab_def)

lemma zeros_tab: "zeros m n = tab m n (\<lambda>i j. Fin 0)"
  by (simp add: zeros_def tab_def map_replicate_const)

lemma eye_tab: "eye k = tab k k (\<lambda>i j. if i = j then Fin 1 else Fin 0)"
  by (simp add: eye_def tab_def)

lemma column_tab: "j < n \<Longrightarrow> column (tab m n f) j = map (\<lambda>i. f i j) [0..<m]"
  by (simp add: column_def tab_def)

lemma mT_tab: "0 < m \<Longrightarrow> mT (tab m n f) = tab n m (\<lambda>i j. f j i)"
proof -
  assume "0 < m"
  then have "mT (tab m n f) = map (column (tab m n f)) [0..<n]"
    by (simp add: mT_def)
  also have "\<dots> = map (\<lambda>j. map (\<lambda>i. f i j) [0..<m]) [0..<n]"
    by (rule map_cong) (simp_all add: column_tab)
  finally show ?thesis by (simp add: tab_def)
qed

lemma dot_maps: "dot (map f xs) (map g xs) = fsum (map (\<lambda>l. fmul (f l) (g l)) xs)"
  by (simp add: dot_def zip_map_map zip_same_conv_map comp_def)

lemma mmul_tab:
  assumes "0 < k"
  shows "mmul (tab m k f) (tab k n g)
       = tab m n (\<lambda>i j. fsum (map (\<lambda>l. fmul (f i l) (g l j)) [0..<k]))"
proof -
  have "mmul (tab m k f) (tab k n g)
      = map (\<lambda>row. map (\<lambda>j. dot row (column (tab k n g) j)) [0..<n]) (tab m k f)"
    using assms by (simp add: mmul_def)
  also have "\<dots> = map (\<lambda>row. map (\<lambda>j. dot row (map (\<lambda>l. g l j) [0..<k])) [0..<n]) (tab m k f)"
    by (simp add: column_tab cong: map_cong)
  also have "\<dots> = tab m n (\<lambda>i j. fsum (map (\<lambda>l. fmul (f i l) (g l j)) [0..<k]))"
    by (simp add: tab_def dot_maps)
  finally show ?thesis .
qed

lemma matmul_tab:
  assumes "0 < m" "0 < k"
  shows "matmul (tab m k f) (tab k n g)
       = Inr (tab m n (\<lambda>i j. fsum (map (\<lambda>l. fmul (f i l) (g l j)) [0..<k])))"
  using assms by (simp add: matmul_def mmul_tab)

lemma bget_tab: "i < m \<Longrightarrow> j < n \<Longrightarrow> bget (tab m n f) i j = f i j"
  by (auto simp: bget_def)

lemma ewise_tab:
  assumes "0 < m"
  shows "ewise h (tab m n f) (tab m n g) = Inr (tab m n (\<lambda>i j. h (f i j) (g i j)))"
  using assms by (auto simp: ewise_def bdim_def bget_tab intro!: tab_cong)

lemma map2_tab: "map2 (map2 h) (tab m n f) (tab m n g) = tab m n (\<lambda>i j. h (f i j) (g i j))"
  by (simp add: tab_def zip_map_map zip_same_conv_map)

lemma smul_tab: "smul (tab m n f) s = tab m n (\<lambda>i j. fmul (f i j) s)"
  by (simp add: smul_def tab_def)

lemma sdiv_tab: "sdiv (tab m n f) s = tab m n (\<lambda>i j. fdiv (f i j) s)"
  by (simp add: sdiv_def tab_def)

lemma item_tab: "item (tab (Suc 0) (Suc 0) f) = Inr (f 0 0)"
  by (simp add: item_def tab_def)

lemma scalar_tab: "scalar (tab (Suc 0) (Suc 0) f) = f 0 0"
  by (simp add: scalar_def tab_def)

lemma is_mat_tab [simp]: "is_mat m n (tab m n f)"
  by (auto simp: is_mat_def tab_def)

lemma is_mat_eq_tab: "is_mat m n A \<Longrightarrow> A = tab m n (\<lambda>i j. A ! i ! j)"
  by (auto simp: is_mat_def tab_def list_eq_iff_nth_eq)

section \<open>Loops\<close>

lemma for_loop_append:
  "for_loop (xs @ ys) body s = ebind (for_loop xs body s) (for_loop ys body)"
  by (induction xs arbitrary: s) (auto simp: ebind_def split: sum.splits)

lemma for_range_0 [simp]: "for_range 0 body s = Inr s"
  by (simp add: for_range_def)

lemma ebind_Inr_right [simp]: "ebind m Inr = m"
  by (simp add: ebind_def split: sum.splits)

lemma for_loop_single: "for_loop [n] body = body n"
  by (rule ext) (simp add: ebind_def split: sum.splits)

lemma for_range_Suc: "for_range (Suc n) body s = ebind (for_range n body s) (body n)"
  by (simp add: for_range_def for_loop_append for_loop_single)

lemma setitem2_tab:
  assumes "i < m" "j < n"
  shows "setitem2 (tab m n f) i j v = Inr (tab m n (\<lambda>i' j'. if i' = i \<and> j' = j then v else f i' j'))"
proof -
  have "(tab m n f)[i := (tab m n f ! i)[j := v]] = tab m n (\<lambda>i' j'. if i' = i \<and> j' = j then v else f i' j')"
    using assms
    by (auto simp: tab_def list_eq_iff_nth_eq nth_list_update)
  with assms show ?thesis by (simp add: setitem2_def)
qed

section \<open>The builder returns the specified matrices\<close>

lemma fill_ar:
  assumes "m \<le> length a" "length a \<le> k"
  shows "for_range m (\<lambda>i F. ebind (getitem a i) (\<lambda>ai. setitem2 F i 0 ai)) (tab k k f)
         = Inr (tab k k (\<lambda>i j. if j = 0 \<and> i < m then a ! i else f i j))"
  using assms
proof (induction m)
  case 0
  then show ?case by simp
next
  case (Suc m)
  then show ?case
    by (auto simp: for_range_Suc getitem_def setitem2_tab intro!: tab_cong)
qed

lemma fill_shift:
  assumes "m < k"
  shows "for_range m (\<lambda>i F. setitem2 F i (i + 1) (Fin 1)) (tab k k f)
         = Inr (tab k k (\<lambda>i j. if i < m \<and> j = i + 1 then Fin 1 else f i j))"
  using assms
proof (induction m)
  case 0
  then show ?case by simp
next
  case (Suc m)
  then show ?case
    by (auto simp: for_range_Suc setitem2_tab intro!: tab_cong)
qed

lemma fill_ma:
  assumes "m \<le> length b" "length b < k"
  shows "for_range m (\<lambda>i G. ebind (getitem b i) (\<lambda>bi. setitem2 G (i + 1) 0 (fneg bi))) (tab k 1 f)
         = Inr (tab k 1 (\<lambda>i j. if 0 < i \<and> i - 1 < m then fneg (b ! (i - 1)) else f i j))"
  using assms
proof (induction m)
  case 0
  then show ?case by simp
next
  case (Suc m)
  have m: "m < length b" "m + 1 < k" "m \<le> length b"
    using Suc.prems by auto
  have "for_range (Suc m) (\<lambda>i G. ebind (getitem b i) (\<lambda>bi. setitem2 G (i + 1) 0 (fneg bi))) (tab k 1 f)
        = setitem2 (tab k 1 (\<lambda>i j. if 0 < i \<and> i - 1 < m then fneg (b ! (i - 1)) else f i j))
            (m + 1) 0 (fneg (b ! m))"
    using m Suc.IH [OF m(3) Suc.prems(2)] by (simp add: for_range_Suc getitem_def)
  also have "\<dots> = Inr (tab k 1 (\<lambda>i' j'. if i' = m + 1 \<and> j' = 0 then fneg (b ! m)
        else if 0 < i' \<and> i' - 1 < m then fneg (b ! (i' - 1)) else f i' j'))"
    using m by (intro setitem2_tab) auto
  also have "tab k 1 (\<lambda>i' j'. if i' = m + 1 \<and> j' = 0 then fneg (b ! m)
        else if 0 < i' \<and> i' - 1 < m then fneg (b ! (i' - 1)) else f i' j')
      = tab k 1 (\<lambda>i j. if 0 < i \<and> i - 1 < Suc m then fneg (b ! (i - 1)) else f i j)"
  proof (rule tab_cong)
    fix i j :: nat
    assume "i < k" "j < 1"
    then show "(if i = m + 1 \<and> j = 0 then fneg (b ! m)
        else if 0 < i \<and> i - 1 < m then fneg (b ! (i - 1)) else f i j)
      = (if 0 < i \<and> i - 1 < Suc m then fneg (b ! (i - 1)) else f i j)"
      by (cases "i = m + 1") (auto simp: less_Suc_eq)
  qed
  finally show ?case .
qed

lemma initialize_FGHQ_eq:
  "initialize_FGHQ a b =
     Inr (spec_F a b, spec_G a b, spec_H a b, eye (max (length a) (length b + 1)))"
proof -
  define k where "k = max (length a) (length b + 1)"
  have k: "length a \<le> k" "length b < k" "k - 1 < k" "0 < k"
    by (auto simp: k_def)
  have F1: "for_range (length a) (\<lambda>i F. ebind (getitem a i) (\<lambda>ai. setitem2 F i 0 ai)) (zeros k k)
      = Inr (tab k k (\<lambda>i j. if j = 0 \<and> i < length a then a ! i else Fin 0))"
    unfolding zeros_tab using k by (intro fill_ar) auto
  have F2: "for_range (k - 1) (\<lambda>i F. setitem2 F i (i + 1) (Fin 1))
        (tab k k (\<lambda>i j. if j = 0 \<and> i < length a then a ! i else Fin 0))
      = Inr (spec_F a b)"
  proof -
    have "tab k k (\<lambda>i j. if i < k - 1 \<and> j = i + 1 then Fin 1
              else if j = 0 \<and> i < length a then a ! i else Fin 0) = spec_F a b"
      unfolding spec_F_def Let_def k_def [symmetric]
      by (rule tab_cong) auto
    moreover have "for_range (k - 1) (\<lambda>i F. setitem2 F i (i + 1) (Fin 1))
        (tab k k (\<lambda>i j. if j = 0 \<and> i < length a then a ! i else Fin 0))
      = Inr (tab k k (\<lambda>i j. if i < k - 1 \<and> j = i + 1 then Fin 1
              else if j = 0 \<and> i < length a then a ! i else Fin 0))"
      by (rule fill_shift [OF k(3)])
    ultimately show ?thesis by (simp only:)
  qed
  have G1: "for_range (length b) (\<lambda>i G. ebind (getitem b i) (\<lambda>bi. setitem2 G (i + 1) 0 (fneg bi))) (zeros k 1)
      = Inr (tab k 1 (\<lambda>i j. if 0 < i \<and> i - 1 < length b then fneg (b ! (i - 1)) else Fin 0))"
    unfolding zeros_tab using k by (intro fill_ma) auto
  have G2: "setitem2 (tab k 1 (\<lambda>i j. if 0 < i \<and> i - 1 < length b then fneg (b ! (i - 1)) else Fin 0)) 0 0 (Fin 1)
      = Inr (spec_G a b)"
  proof -
    have "tab k 1 (\<lambda>i' j'. if i' = 0 \<and> j' = 0 then Fin 1
              else if 0 < i' \<and> i' - 1 < length b then fneg (b ! (i' - 1)) else Fin 0) = spec_G a b"
      unfolding spec_G_def Let_def k_def [symmetric]
      by (rule tab_cong) auto
    moreover have "setitem2 (tab k 1 (\<lambda>i j. if 0 < i \<and> i - 1 < length b then fneg (b ! (i - 1)) else Fin 0)) 0 0 (Fin 1)
      = Inr (tab k 1 (\<lambda>i' j'. if i' = 0 \<and> j' = 0 then Fin 1
              else if 0 < i' \<and> i' - 1 < length b then fneg (b ! (i' - 1)) else Fin 0))"
      by (rule setitem2_tab) (use k in auto)
    ultimately show ?thesis by (simp only:)
  qed
  have H1: "setitem2 (zeros 1 k) 0 0 (Fin 1) = Inr (spec_H a b)"
  proof -
    have "tab 1 k (\<lambda>i' j'. if i' = 0 \<and> j' = 0 then Fin 1 else Fin 0) = spec_H a b"
      unfolding spec_H_def Let_def k_def [symmetric]
      by (rule tab_cong) auto
    moreover have "setitem2 (tab 1 k (\<lambda>i j. Fin 0)) 0 0 (Fin 1)
      = Inr (tab 1 k (\<lambda>i' j'. if i' = 0 \<and> j' = 0 then Fin 1 else Fin 0))"
      by (rule setitem2_tab) (use k in auto)
    ultimately show ?thesis by (simp only: zeros_tab)
  qed
  show ?thesis
    unfolding initialize_FGHQ_def Let_def k_def [symmetric]
    apply (subst F1)
    apply (subst ebind_Inr)
    apply (subst F2)
    apply (subst ebind_Inr)
    apply (subst G1)
    apply (subst ebind_Inr)
    apply (subst G2)
    apply (subst ebind_Inr)
    apply (subst H1)
    apply (subst ebind_Inr)
    apply (rule refl)
    done
qed
section \<open>The loop of the filter is the recursion of the specification\<close>

lemma getitem_in [simp]: "i < length a \<Longrightarrow> getitem a i = Inr (a ! i)"
  by (simp add: getitem_def)

lemma setitem_in [simp]: "i < length a \<Longrightarrow> setitem a i v = Inr (a[i := v])"
  by (simp add: setitem_def)

lemma kalman_body_tab:
  assumes "0 < k" "t < length y" "t < length e" "t < length r"
  shows "kalman_body (tab k k f) (tab k 1 g) (tab 1 k h) y k t (tab k 1 xv, tab k k v, e, r)
       = (case spec_step k (tab k k f) (tab k 1 g) (tab 1 k h) (tab k 1 xv, tab k k v) (y ! t) of
            ((x', V'), e_t, r_t) \<Rightarrow> Inr (x', V', e[t := e_t], r[t := r_t]))"
  using assms
  by (simp add: kalman_body_def predict_cov_def spec_step_def Let_def matmul_tab mmul_tab mT_tab
      madd_def msub_def mplus_def mminus_def ewise_tab map2_tab smul_tab sdiv_tab item_tab scalar_tab eye_tab)

lemma spec_step_tab:
  assumes "0 < k"
  shows "is_mat k 1 (fst (fst (spec_step k (tab k k f) (tab k 1 g) (tab 1 k h) (tab k 1 xv, tab k k v) y_t)))"
    and "is_mat k k (snd (fst (spec_step k (tab k k f) (tab k 1 g) (tab 1 k h) (tab k 1 xv, tab k k v) y_t)))"
  using assms
  by (simp_all add: spec_step_def Let_def mmul_tab mT_tab
      mplus_def mminus_def map2_tab smul_tab sdiv_tab eye_tab)

lemma kalman_body_spec:
  assumes "0 < k" "is_mat k k F" "is_mat k 1 G" "is_mat 1 k H" "is_mat k 1 x" "is_mat k k V"
    and "t < length y" "t < length e" "t < length r"
  shows "kalman_body F G H y k t (x, V, e, r)
       = (case spec_step k F G H (x, V) (y ! t) of
            ((x', V'), e_t, r_t) \<Rightarrow> Inr (x', V', e[t := e_t], r[t := r_t]))"
proof -
  note eqs = assms(2-6) [THEN is_mat_eq_tab]
  show ?thesis
    apply (subst (1 2) eqs(1))
    apply (subst (1 2) eqs(2))
    apply (subst (1 2) eqs(3))
    apply (subst (1 2) eqs(4))
    apply (subst (1 2) eqs(5))
    apply (rule kalman_body_tab)
    using assms by simp_all
qed

lemma spec_step_is_mat:
  assumes "0 < k" "is_mat k k F" "is_mat k 1 G" "is_mat 1 k H" "is_mat k 1 x" "is_mat k k V"
  shows "is_mat k 1 (fst (fst (spec_step k F G H (x, V) y_t)))"
    and "is_mat k k (snd (fst (spec_step k F G H (x, V) y_t)))"
proof -
  note eqs = assms(2-6) [THEN is_mat_eq_tab]
  show "is_mat k 1 (fst (fst (spec_step k F G H (x, V) y_t)))"
    apply (subst eqs(1))
    apply (subst eqs(2))
    apply (subst eqs(3))
    apply (subst eqs(4))
    apply (subst eqs(5))
    apply (rule spec_step_tab)
    using assms by simp
  show "is_mat k k (snd (fst (spec_step k F G H (x, V) y_t)))"
    apply (subst eqs(1))
    apply (subst eqs(2))
    apply (subst eqs(3))
    apply (subst eqs(4))
    apply (subst eqs(5))
    apply (rule spec_step_tab)
    using assms by simp
qed

lemma take_Suc_update:
  "t < length e \<Longrightarrow> take (Suc t) (e[t := v]) = take t e @ [v]"
  by (simp add: take_Suc_conv_app_nth)

lemma loop_spec:
  assumes "0 < k" "is_mat k k F" "is_mat k 1 G" "is_mat 1 k H"
  shows "is_mat k 1 x \<Longrightarrow> is_mat k k V \<Longrightarrow> t0 + n \<le> length y \<Longrightarrow> t0 + n \<le> length e
    \<Longrightarrow> t0 + n \<le> length r \<Longrightarrow>
    for_loop [t0..<t0 + n] (kalman_body F G H y k) (x, V, e, r) =
      Inr (fst (spec_state k F G H (x, V) (take n (drop t0 y))),
           snd (spec_state k F G H (x, V) (take n (drop t0 y))),
           take t0 e @ fst (spec_filter k F G H (x, V) (take n (drop t0 y))) @ drop (t0 + n) e,
           take t0 r @ snd (spec_filter k F G H (x, V) (take n (drop t0 y))) @ drop (t0 + n) r)"
proof (induction n arbitrary: t0 x V e r)
  case 0
  then show ?case by (simp add: spec_state_def)
next
  case (Suc n)
  obtain x' V' e0 r0 where st: "spec_step k F G H (x, V) (y ! t0) = ((x', V'), e0, r0)"
    by (metis prod.exhaust)
  have t0: "t0 < length y" "t0 < length e" "t0 < length r"
    using Suc.prems by auto
  have shapes: "is_mat k 1 x'" "is_mat k k V'"
    using spec_step_is_mat [OF assms Suc.prems(1,2), of "y ! t0"] st by auto
  have body: "kalman_body F G H y k t0 (x, V, e, r) = Inr (x', V', e[t0 := e0], r[t0 := r0])"
    using kalman_body_spec [OF assms Suc.prems(1,2) t0] st by simp
  have ys: "take (Suc n) (drop t0 y) = y ! t0 # take n (drop (Suc t0) y)"
    using t0 by (simp add: Cons_nth_drop_Suc [symmetric])
  have range: "[t0..<t0 + Suc n] = t0 # [Suc t0..<Suc t0 + n]"
    by (simp add: upt_conv_Cons)
  have IH: "for_loop [Suc t0..<Suc t0 + n] (kalman_body F G H y k) (x', V', e[t0 := e0], r[t0 := r0]) =
      Inr (fst (spec_state k F G H (x', V') (take n (drop (Suc t0) y))),
           snd (spec_state k F G H (x', V') (take n (drop (Suc t0) y))),
           take (Suc t0) (e[t0 := e0]) @ fst (spec_filter k F G H (x', V') (take n (drop (Suc t0) y)))
             @ drop (Suc t0 + n) (e[t0 := e0]),
           take (Suc t0) (r[t0 := r0]) @ snd (spec_filter k F G H (x', V') (take n (drop (Suc t0) y)))
             @ drop (Suc t0 + n) (r[t0 := r0]))"
    using Suc.prems by (intro Suc.IH shapes) auto
  have state: "spec_state k F G H (x, V) (y ! t0 # take n (drop (Suc t0) y))
      = spec_state k F G H (x', V') (take n (drop (Suc t0) y))"
    by (simp add: spec_state_def st)
  have "for_loop [t0..<t0 + Suc n] (kalman_body F G H y k) (x, V, e, r)
      = for_loop [Suc t0..<Suc t0 + n] (kalman_body F G H y k) (x', V', e[t0 := e0], r[t0 := r0])"
    by (simp only: range for_loop.simps body ebind_Inr)
  also note IH
  finally show ?case
    unfolding ys state
    using t0 by (simp add: st take_Suc_update split_beta)
qed

lemma length_spec_filter:
  "length (fst (spec_filter k F G H s ys)) = length ys \<and> length (snd (spec_filter k F G H s ys)) = length ys"
  by (induction ys arbitrary: s) (simp_all add: split_beta)

lemma smul_eye_100: "smul (eye k) (Fin 100) = tab k k (\<lambda>i j. if i = j then Fin 100 else Fin 0)"
  unfolding eye_tab smul_tab by (rule tab_cong) simp

lemma kalman_filter_spec:
  assumes "0 < k" "is_mat k k F" "is_mat k 1 G" "is_mat 1 k H" "N \<le> length y"
  shows "kalman_filter F G H N y k = Inr (spec_kalman k F G H (take N y))"
proof -
  have "for_loop [0..<0 + N] (kalman_body F G H y k)
          (tab k 1 (\<lambda>i j. Fin 0), tab k k (\<lambda>i j. if i = j then Fin 100 else Fin 0),
           replicate N (Fin 0), replicate N (Fin 0))
      = Inr (fst (spec_state k F G H (tab k 1 (\<lambda>i j. Fin 0), tab k k (\<lambda>i j. if i = j then Fin 100 else Fin 0)) (take N (drop 0 y))),
           snd (spec_state k F G H (tab k 1 (\<lambda>i j. Fin 0), tab k k (\<lambda>i j. if i = j then Fin 100 else Fin 0)) (take N (drop 0 y))),
           take 0 (replicate N (Fin 0)) @ fst (spec_filter k F G H (tab k 1 (\<lambda>i j. Fin 0), tab k k (\<lambda>i j. if i = j then Fin 100 else Fin 0)) (take N (drop 0 y))) @ drop (0 + N) (replicate N (Fin 0)),
           take 0 (replicate N (Fin 0)) @ snd (spec_filter k F G H (tab k 1 (\<lambda>i j. Fin 0), tab k k (\<lambda>i j. if i = j then Fin 100 else Fin 0)) (take N (drop 0 y))) @ drop (0 + N) (replicate N (Fin 0)))"
    using assms by (intro loop_spec) auto
  then show ?thesis
    by (simp add: kalman_filter_def kalman_init_def for_range_def zeros_tab smul_eye_100 spec_kalman_def)
qed

section \<open>Evaluation on concrete inputs\<close>

lemmas eval_defs = initialize_FGHQ_def for_range_def ebind_def getitem_def setitem_def setitem2_def
  zeros_def eye_def nrows_def ncols_def kalman_filter_def kalman_init_def kalman_body_def
  predict_cov_def matmul_def mmul_def mT_def column_def dot_def fsum_def smul_def sdiv_def madd_def
  msub_def ewise_def bdim_def bget_def tab_def item_def fsub_def finf_def upt_conv_Cons
  numeral_3_eq_3 numeral_2_eq_2

section \<open>Claims about the state-space builder\<close>

text \<open>
  C3. For every AR sequence \<open>a\<close> (length \<open>p\<close>) and MA sequence \<open>b\<close> (length \<open>q\<close>) the
  builder returns \<open>F\<close>, \<open>G\<close>, \<open>H\<close> of dimension \<open>k = max p (q + 1)\<close>: \<open>F\<close> is \<open>k\<close> by \<open>k\<close>
  with \<open>F[i, 0] = a[i]\<close> for \<open>i < p\<close>, \<open>F[i, i + 1] = 1\<close> and 0 elsewhere; \<open>G\<close> is \<open>k\<close> by 1
  with \<open>G[0] = 1\<close>, \<open>G[i + 1] = - b[i]\<close> for \<open>i < q\<close> and 0 elsewhere; \<open>H\<close> is 1 by \<open>k\<close>
  with \<open>H[0] = 1\<close> and 0 elsewhere. (\<open>spec_F\<close>, \<open>spec_G\<close> and \<open>spec_H\<close> are these
  matrices, entry by entry.)
\<close>

theorem builder_matrices:
  "initialize_FGHQ a b =
     Inr (spec_F a b, spec_G a b, spec_H a b, eye (max (length a) (length b + 1)))
   \<and> nrows (spec_F a b) = max (length a) (length b + 1)
   \<and> ncols (spec_F a b) = max (length a) (length b + 1)
   \<and> nrows (spec_G a b) = max (length a) (length b + 1)
   \<and> ncols (spec_G a b) = 1
   \<and> nrows (spec_H a b) = 1
   \<and> ncols (spec_H a b) = max (length a) (length b + 1)"
  by (simp add: initialize_FGHQ_eq spec_F_def spec_G_def spec_H_def Let_def)

text \<open>
  C8. The builder supports \<open>p = 0\<close> (pure MA) and \<open>q = 0\<close> (pure AR): with no AR
  coefficient \<open>F\<close> is the shift matrix alone, with no MA coefficient \<open>G\<close> is the first
  unit vector alone; for \<open>p = 1\<close>, \<open>q = 0\<close> it yields \<open>k = 1\<close>, \<open>F = [[a1]]\<close>, \<open>G = [[1]]\<close>,
  \<open>H = [[1]]\<close>.
\<close>

theorem builder_edge_cases:
  "initialize_FGHQ [a1] [] = Inr ([[a1]], [[Fin 1]], [[Fin 1]], [[Fin 1]])
   \<and> initialize_FGHQ [] b =
       Inr (tab (length b + 1) (length b + 1) (\<lambda>i j. if j = i + 1 then Fin 1 else Fin 0),
            tab (length b + 1) 1 (\<lambda>i j. if i = 0 then Fin 1 else fneg (b ! (i - 1))),
            tab 1 (length b + 1) (\<lambda>i j. if j = 0 then Fin 1 else Fin 0),
            eye (length b + 1))
   \<and> initialize_FGHQ a [] =
       Inr (tab (max (length a) 1) (max (length a) 1)
              (\<lambda>i j. if j = 0 \<and> i < length a then a ! i else if j = i + 1 then Fin 1 else Fin 0),
            tab (max (length a) 1) 1 (\<lambda>i j. if i = 0 then Fin 1 else Fin 0),
            tab 1 (max (length a) 1) (\<lambda>i j. if j = 0 then Fin 1 else Fin 0),
            eye (max (length a) 1))"
proof (intro conjI)
  show "initialize_FGHQ [a1] [] = Inr ([[a1]], [[Fin 1]], [[Fin 1]], [[Fin 1]])"
    by (simp add: initialize_FGHQ_eq spec_F_def spec_G_def spec_H_def tab_def eye_def)
  have "tab (length b + 1) 1
          (\<lambda>i j. if i = 0 then Fin 1 else if i - 1 < length b then fneg (b ! (i - 1)) else Fin 0)
      = tab (length b + 1) 1 (\<lambda>i j. if i = 0 then Fin 1 else fneg (b ! (i - 1)))"
    by (rule tab_cong) auto
  then show "initialize_FGHQ [] b =
       Inr (tab (length b + 1) (length b + 1) (\<lambda>i j. if j = i + 1 then Fin 1 else Fin 0),
            tab (length b + 1) 1 (\<lambda>i j. if i = 0 then Fin 1 else fneg (b ! (i - 1))),
            tab 1 (length b + 1) (\<lambda>i j. if j = 0 then Fin 1 else Fin 0),
            eye (length b + 1))"
    by (simp add: initialize_FGHQ_eq spec_F_def spec_G_def spec_H_def)
  show "initialize_FGHQ a [] =
       Inr (tab (max (length a) 1) (max (length a) 1)
              (\<lambda>i j. if j = 0 \<and> i < length a then a ! i else if j = i + 1 then Fin 1 else Fin 0),
            tab (max (length a) 1) 1 (\<lambda>i j. if i = 0 then Fin 1 else Fin 0),
            tab 1 (max (length a) 1) (\<lambda>i j. if j = 0 then Fin 1 else Fin 0),
            eye (max (length a) 1))"
    by (simp add: initialize_FGHQ_eq spec_F_def spec_G_def spec_H_def Let_def)
      (auto intro!: tab_cong)
qed

text \<open>
  C6, as claimed: the builder fails with a ConstructionError when \<open>p < 0\<close> or \<open>q < 0\<close> or
  when a declared length disagrees with the actual one. The builder has no such error:
  the objective declares \<open>p = 3\<close>, \<open>q = 2\<close>, and for a coefficient vector of two entries it
  passes an AR sequence of length 2 to the builder, which returns matrices of dimension
  2.
\<close>

theorem builder_accepts_short_vector:
  "length (take 3 [Fin 1, Fin 1]) \<noteq> 3
   \<and> initialize_FGHQ (take 3 [Fin 1, Fin 1]) (take 2 (drop 3 [Fin 1, Fin 1]))
       = Inr ([[Fin 1, Fin 1], [Fin 1, Fin 0]], [[Fin 1], [Fin 0]], [[Fin 1, Fin 0]],
              [[Fin 1, Fin 0], [Fin 0, Fin 1]])"
  by (simp add: initialize_FGHQ_eq spec_F_def spec_G_def spec_H_def tab_def eye_def upt_conv_Cons)

text \<open>
  C6, amended: the builder takes the two coefficient sequences only and reads \<open>p\<close> and
  \<open>q\<close> off their lengths, so neither is negative and no declared length exists beside
  the actual one; it raises nothing and succeeds on every pair of sequences, with
  matrices of dimension \<open>max p (q + 1)\<close>.
\<close>

theorem builder_total:
  "\<exists>F G H Q. initialize_FGHQ a b = Inr (F, G, H, Q)
     \<and> nrows F = max (length a) (length b + 1) \<and> nrows G = max (length a) (length b + 1)
     \<and> ncols H = max (length a) (length b + 1)"
  by (simp add: initialize_FGHQ_eq spec_F_def spec_G_def spec_H_def Let_def)

section \<open>Claims about the Kalman recursion\<close>

lemma builder_three:
  assumes "3 \<le> length theta"
  shows "initialize_FGHQ (take 3 theta) (take 2 (drop 3 theta))
       = Inr (spec_F (take 3 theta) (take 2 (drop 3 theta)),
              spec_G (take 3 theta) (take 2 (drop 3 theta)),
              spec_H (take 3 theta) (take 2 (drop 3 theta)), eye 3)"
    and "is_mat 3 3 (spec_F (take 3 theta) (take 2 (drop 3 theta)))"
    and "is_mat 3 1 (spec_G (take 3 theta) (take 2 (drop 3 theta)))"
    and "is_mat 1 3 (spec_H (take 3 theta) (take 2 (drop 3 theta)))"
proof -
  have k: "max (length (take 3 theta)) (length (take 2 (drop 3 theta)) + 1) = 3"
    using assms by auto
  show "initialize_FGHQ (take 3 theta) (take 2 (drop 3 theta))
       = Inr (spec_F (take 3 theta) (take 2 (drop 3 theta)),
              spec_G (take 3 theta) (take 2 (drop 3 theta)),
              spec_H (take 3 theta) (take 2 (drop 3 theta)), eye 3)"
    by (simp only: initialize_FGHQ_eq k)
  show "is_mat 3 3 (spec_F (take 3 theta) (take 2 (drop 3 theta)))"
    unfolding spec_F_def Let_def k by (rule is_mat_tab)
  show "is_mat 3 1 (spec_G (take 3 theta) (take 2 (drop 3 theta)))"
    unfolding spec_G_def Let_def k by (rule is_mat_tab)
  show "is_mat 1 3 (spec_H (take 3 theta) (take 2 (drop 3 theta)))"
    unfolding spec_H_def Let_def k by (rule is_mat_tab)
qed

text \<open>
  C1. For the matrices \<open>(F, G, H)\<close> built from a coefficient vector (the objective fixes
  \<open>p = 3\<close>, \<open>q = 2\<close>, so \<open>k = 3\<close>) and observations \<open>y\<close> of length \<open>N\<close>, the loop of the
  objective computes the recursion of the specification (\<open>spec_kalman\<close>: from \<open>x = 0\<close>,
  \<open>V = 100 I\<close>, each step predicts, takes the innovation and its variance, the gain, and
  updates), and the innovations \<open>e\<close> and variances \<open>r\<close> have length \<open>N\<close>.
\<close>

theorem kalman_recursion:
  assumes "3 \<le> length theta" and "length y = N"
  shows "\<exists>F G H Q. initialize_FGHQ (take 3 theta) (take 2 (drop 3 theta)) = Inr (F, G, H, Q)
     \<and> kalman_filter F G H N y 3 = Inr (spec_kalman 3 F G H y)
     \<and> length (fst (spec_kalman 3 F G H y)) = N
     \<and> length (snd (spec_kalman 3 F G H y)) = N"
proof -
  note b = builder_three [OF assms(1)]
  have "kalman_filter (spec_F (take 3 theta) (take 2 (drop 3 theta)))
          (spec_G (take 3 theta) (take 2 (drop 3 theta)))
          (spec_H (take 3 theta) (take 2 (drop 3 theta))) N y 3
      = Inr (spec_kalman 3 (spec_F (take 3 theta) (take 2 (drop 3 theta)))
          (spec_G (take 3 theta) (take 2 (drop 3 theta)))
          (spec_H (take 3 theta) (take 2 (drop 3 theta))) (take N y))"
    using assms(2) by (intro kalman_filter_spec b) auto
  then show ?thesis
    using assms(2) b(1) by (simp add: spec_kalman_def length_spec_filter)
qed

theorem kalman_recursion_witness:
  "3 \<le> length [Fin (1 / 2), Fin 0, Fin 0, Fin 0, Fin 0]
   \<and> length [Fin 1, Fin 1] = 2
   \<and> (\<exists>F G H Q.
        initialize_FGHQ (take 3 [Fin (1 / 2), Fin 0, Fin 0, Fin 0, Fin 0])
          (take 2 (drop 3 [Fin (1 / 2), Fin 0, Fin 0, Fin 0, Fin 0])) = Inr (F, G, H, Q)
        \<and> kalman_filter F G H 2 [Fin 1, Fin 1] 3 = Inr (spec_kalman 3 F G H [Fin 1, Fin 1])
        \<and> spec_kalman 3 F G H [Fin 1, Fin 1] = ([Fin 1, Fin (1 / 2)], [Fin 126, Fin 101]))"
proof -
  have b: "initialize_FGHQ (take 3 [Fin (1 / 2), Fin 0, Fin 0, Fin 0, Fin 0])
          (take 2 (drop 3 [Fin (1 / 2), Fin 0, Fin 0, Fin 0, Fin 0]))
        = Inr ([[Fin (1 / 2), Fin 1, Fin 0], [Fin 0, Fin 0, Fin 1], [Fin 0, Fin 0, Fin 0]],
               [[Fin 1], [Fin 0], [Fin 0]], [[Fin 1, Fin 0, Fin 0]],
               [[Fin 1, Fin 0, Fin 0], [Fin 0, Fin 1, Fin 0], [Fin 0, Fin 0, Fin 1]])"
    by (simp add: eval_defs)
  have v: "kalman_filter [[Fin (1 / 2), Fin 1, Fin 0], [Fin 0, Fin 0, Fin 1], [Fin 0, Fin 0, Fin 0]]
          [[Fin 1], [Fin 0], [Fin 0]] [[Fin 1, Fin 0, Fin 0]] 2 [Fin 1, Fin 1] 3
        = Inr ([Fin 1, Fin (1 / 2)], [Fin 126, Fin 101])"
    by (simp add: eval_defs)
  have "\<exists>F G H Q.
        initialize_FGHQ (take 3 [Fin (1 / 2), Fin 0, Fin 0, Fin 0, Fin 0])
          (take 2 (drop 3 [Fin (1 / 2), Fin 0, Fin 0, Fin 0, Fin 0])) = Inr (F, G, H, Q)
        \<and> kalman_filter F G H 2 [Fin 1, Fin 1] 3 = Inr (spec_kalman 3 F G H [Fin 1, Fin 1])
        \<and> length (fst (spec_kalman 3 F G H [Fin 1, Fin 1])) = 2
        \<and> length (snd (spec_kalman 3 F G H [Fin 1, Fin 1])) = 2"
    by (rule kalman_recursion) simp_all
  then show ?thesis
    unfolding b using v by auto
qed

section \<open>Claims about the likelihood and the objective\<close>

lemma fsum_Fin: "fsum (map Fin xs) = Fin (sum_list xs)"
  by (induction xs) (simp_all add: fsum_def)

lemma profile_sigma_Fin:
  assumes "length es = length rs" "\<forall>x \<in> set rs. 0 < x" "0 < N"
  shows "profile_sigma (map Fin es) (map Fin rs) N
       = Fin (sum_list (map2 (\<lambda>e r. e\<^sup>2 / r) es rs) / real N)"
proof -
  have "map2 fdiv (map (\<lambda>v. fmul v v) (map Fin es)) (map Fin rs)
      = map Fin (map2 (\<lambda>e r. e\<^sup>2 / r) es rs)"
    using assms(1,2)
  proof (induction es rs rule: list_induct2)
    case Nil
    then show ?case by simp
  next
    case (Cons e es r rs)
    then show ?case by (simp add: power2_eq_square)
  qed
  then have "profile_sigma (map Fin es) (map Fin rs) N
      = fdiv (Fin (sum_list (map2 (\<lambda>e r. e\<^sup>2 / r) es rs))) (Fin (real N))"
    by (simp only: profile_sigma_def fsum_Fin)
  then show ?thesis
    using assms(3) by simp
qed

lemma flog_pos: "\<forall>x \<in> set rs. 0 < x \<Longrightarrow> map flog (map Fin rs) = map Fin (map ln rs)"
  by (induction rs) simp_all

lemma log_likelihood_Fin:
  assumes "\<forall>x \<in> set rs. 0 < x" "rs \<noteq> []"
  shows "log_likelihood (Fin s) (map Fin rs)
       = (if 0 < s then Fin (spec_log_L s rs) else if s = 0 then PInf else NaN)"
proof -
  have n: "0 < real (length rs)"
    using assms(2) by simp
  have "log_likelihood (Fin s) (map Fin rs)
      = fmul (Fin (- (1 / 2)))
           (fadd (fadd (fadd (fmul (Fin (real (length rs))) (flog (Fin (2 * pi))))
                             (fmul (Fin (real (length rs))) (flog (Fin s))))
                       (Fin (sum_list (map ln rs))))
                 (Fin (real (length rs))))"
    by (simp only: log_likelihood_def Let_def flog_pos [OF assms(1)] fsum_Fin length_map)
  also have "\<dots> = (if 0 < s then Fin (spec_log_L s rs) else if s = 0 then PInf else NaN)"
    using n by (simp add: spec_log_L_def finf_def)
  finally show ?thesis .
qed


lemma obj_func_likelihood_eq:
  assumes "initialize_FGHQ (take 3 theta) (take 2 (drop 3 theta)) = Inr (F, G, H, Q)"
    and "kalman_filter F G H N y 3 = Inr (e, r)"
  shows "obj_func_likelihood N y theta = Inr (fneg (log_likelihood (profile_sigma e r N) r))"
  using assms by (simp add: obj_func_likelihood_def Let_def)


lemma kalman_half:
  "kalman_filter [[Fin (1 / 2), Fin 1, Fin 0], [Fin 0, Fin 0, Fin 1], [Fin 0, Fin 0, Fin 0]]
      [[Fin 1], [Fin 0], [Fin 0]] [[Fin 1, Fin 0, Fin 0]] 2 [Fin 1, Fin 1] 3
   = Inr ([Fin 1, Fin (1 / 2)], [Fin 126, Fin 101])"
  by (simp add: eval_defs)

lemma builder_half:
  "initialize_FGHQ (take 3 [Fin (1 / 2), Fin 0, Fin 0, Fin 0, Fin 0])
          (take 2 (drop 3 [Fin (1 / 2), Fin 0, Fin 0, Fin 0, Fin 0]))
        = Inr ([[Fin (1 / 2), Fin 1, Fin 0], [Fin 0, Fin 0, Fin 1], [Fin 0, Fin 0, Fin 0]],
               [[Fin 1], [Fin 0], [Fin 0]], [[Fin 1, Fin 0, Fin 0]],
               [[Fin 1, Fin 0, Fin 0], [Fin 0, Fin 1, Fin 0], [Fin 0, Fin 0, Fin 1]])"
  by (simp add: eval_defs)


lemma kalman_zero_obs:
  "kalman_filter [[Fin 0, Fin 1, Fin 0], [Fin 0, Fin 0, Fin 1], [Fin 0, Fin 0, Fin 0]]
      [[Fin 1], [Fin 0], [Fin 0]] [[Fin 1, Fin 0, Fin 0]] 1 [Fin 0] 3
   = Inr ([Fin 0], [Fin 101])"
  by (simp add: eval_defs)

lemma builder_zero:
  "initialize_FGHQ (take 3 [Fin 0, Fin 0, Fin 0, Fin 0, Fin 0])
          (take 2 (drop 3 [Fin 0, Fin 0, Fin 0, Fin 0, Fin 0]))
        = Inr ([[Fin 0, Fin 1, Fin 0], [Fin 0, Fin 0, Fin 1], [Fin 0, Fin 0, Fin 0]],
               [[Fin 1], [Fin 0], [Fin 0]], [[Fin 1, Fin 0, Fin 0]],
               [[Fin 1, Fin 0, Fin 0], [Fin 0, Fin 1, Fin 0], [Fin 0, Fin 0, Fin 1]])"
  by (simp add: eval_defs)

section \<open>Claims about errors\<close>

text \<open>
  C5, as claimed: the evaluator fails with a DomainError when \<open>\<sigma>\<^sup>2 \<le> 0\<close> or some
  \<open>r[t] \<le> 0\<close>. It does not: for \<open>\<sigma>\<^sup>2 = 0\<close> it returns \<open>+ \<infinity>\<close>, for a negative \<open>r[t]\<close> NaN,
  and when the only observation is 0 (so every innovation is 0) the objective returns
  \<open>- \<infinity>\<close>.
\<close>

theorem likelihood_no_domain_error:
  "log_likelihood (Fin 0) [Fin 1] = PInf
   \<and> log_likelihood (Fin 1) [Fin (- 1)] = NaN
   \<and> obj_func_likelihood 1 [Fin 0] [Fin 0, Fin 0, Fin 0, Fin 0, Fin 0] = Inr NInf"
proof -
  have "log_likelihood (Fin 0) [Fin 1] = PInf"
    by (simp add: log_likelihood_def fsum_def finf_def)
  moreover have "log_likelihood (Fin 1) [Fin (- 1)] = NaN"
    by (simp add: log_likelihood_def fsum_def finf_def)
  moreover have "log_likelihood (profile_sigma [Fin 0] [Fin 101] 1) [Fin 101] = PInf"
    by (simp add: log_likelihood_def profile_sigma_def fsum_def finf_def)
  then have "obj_func_likelihood 1 [Fin 0] [Fin 0, Fin 0, Fin 0, Fin 0, Fin 0] = Inr NInf"
    using obj_func_likelihood_eq [OF builder_zero kalman_zero_obs] by simp
  ultimately show ?thesis by simp
qed

lemma profile_sigma_zero:
  assumes "length rs = N" "\<forall>x \<in> set rs. 0 < x" "0 < N"
  shows "profile_sigma (replicate N (Fin 0)) (map Fin rs) N = Fin 0"
proof -
  have "profile_sigma (map Fin (replicate N 0)) (map Fin rs) N
       = Fin (sum_list (map2 (\<lambda>e r. e\<^sup>2 / r) (replicate N 0) rs) / real N)"
    using assms by (intro profile_sigma_Fin) auto
  moreover have "map2 (\<lambda>e r. e\<^sup>2 / r) (replicate N 0) rs = map (\<lambda>r. 0) rs"
    using assms(1) by (induction rs arbitrary: N) auto
  ultimately show ?thesis by simp
qed

text \<open>
  C5, amended: the evaluator makes no domain check and raises no error; it evaluates
  numpy's logarithm as it is. When every innovation is 0 (and every \<open>r[t] > 0\<close>) the
  profiled variance is 0, \<open>log L\<close> is \<open>+ \<infinity>\<close> and the objective returns \<open>- \<infinity>\<close>; a negative
  \<open>\<sigma>\<^sup>2\<close> gives NaN.
\<close>

theorem likelihood_boundary:
  assumes "0 < N" and "length rs = N" and "\<forall>x \<in> set rs. 0 < x"
  shows "profile_sigma (replicate N (Fin 0)) (map Fin rs) N = Fin 0
     \<and> log_likelihood (Fin 0) (map Fin rs) = PInf
     \<and> (s < 0 \<longrightarrow> log_likelihood (Fin s) (map Fin rs) = NaN)
     \<and> (initialize_FGHQ (take 3 theta) (take 2 (drop 3 theta)) = Inr (F, G, H, Q)
          \<and> kalman_filter F G H N y 3 = Inr (replicate N (Fin 0), map Fin rs)
        \<longrightarrow> obj_func_likelihood N y theta = Inr NInf)"
proof -
  have ne: "rs \<noteq> []"
    using assms(1,2) by auto
  have z: "profile_sigma (replicate N (Fin 0)) (map Fin rs) N = Fin 0"
    using assms by (simp add: profile_sigma_zero)
  have l: "log_likelihood (Fin 0) (map Fin rs) = PInf"
    using ne assms(3) by (simp add: log_likelihood_Fin)
  have n: "s < 0 \<longrightarrow> log_likelihood (Fin s) (map Fin rs) = NaN"
    using ne assms(3) by (simp add: log_likelihood_Fin)
  show ?thesis
    using z l n by (auto simp: obj_func_likelihood_eq)
qed

theorem likelihood_boundary_witness:
  "(0 :: nat) < 1 \<and> length [101 :: real] = 1 \<and> (0 :: real) < 101
   \<and> profile_sigma (replicate 1 (Fin 0)) [Fin 101] 1 = Fin 0
   \<and> log_likelihood (Fin 0) [Fin 101] = PInf
   \<and> log_likelihood (Fin (- 1)) [Fin 101] = NaN
   \<and> kalman_filter [[Fin 0, Fin 1, Fin 0], [Fin 0, Fin 0, Fin 1], [Fin 0, Fin 0, Fin 0]]
        [[Fin 1], [Fin 0], [Fin 0]] [[Fin 1, Fin 0, Fin 0]] 1 [Fin 0] 3 = Inr ([Fin 0], [Fin 101])
   \<and> obj_func_likelihood 1 [Fin 0] [Fin 0, Fin 0, Fin 0, Fin 0, Fin 0] = Inr NInf"
proof -
  have h: "(0 :: nat) < 1" "length [101 :: real] = 1" "\<forall>x \<in> set [101 :: real]. 0 < x"
    by simp_all
  show ?thesis
    using likelihood_boundary [OF h, of "- 1" "[Fin 0, Fin 0, Fin 0, Fin 0, Fin 0]"
        "[[Fin 0, Fin 1, Fin 0], [Fin 0, Fin 0, Fin 1], [Fin 0, Fin 0, Fin 0]]"
        "[[Fin 1], [Fin 0], [Fin 0]]" "[[Fin 1, Fin 0, Fin 0]]"
        "[[Fin 1, Fin 0, Fin 0], [Fin 0, Fin 1, Fin 0], [Fin 0, Fin 0, Fin 1]]" "[Fin 0]"]
      builder_zero kalman_zero_obs
    by simp
qed

section \<open>Claim about the first innovation\<close>

lemma is_fin_Fin [simp]: "is_fin (Fin x)"
  by (simp add: is_fin_def)

lemma fmul_fin_zero: "is_fin v \<Longrightarrow> fmul v (Fin 0) = Fin 0"
  by (cases v) (simp_all add: is_fin_def)

lemma fsum_zeros: "fsum (map (\<lambda>l. Fin 0) xs) = Fin 0"
  by (induction xs) (simp_all add: fsum_def)

lemma fsub_zero: "fsub v (Fin 0) = v"
  by (cases v) (simp_all add: fsub_def)

lemma mmul_zero_column:
  assumes "0 < k" and "\<And>i l. i < m \<Longrightarrow> l < k \<Longrightarrow> is_fin (f i l)"
  shows "mmul (tab m k f) (tab k 1 (\<lambda>i j. Fin 0)) = tab m 1 (\<lambda>i j. Fin 0)"
proof -
  have "tab m 1 (\<lambda>i j. fsum (map (\<lambda>l. fmul (f i l) (Fin 0)) [0..<k])) = tab m 1 (\<lambda>i j. Fin 0)"
  proof (rule tab_cong)
    fix i j :: nat
    assume "i < m"
    then have "map (\<lambda>l. fmul (f i l) (Fin 0)) [0..<k] = map (\<lambda>l. Fin 0) [0..<k]"
      by (intro map_cong refl) (simp add: assms(2) fmul_fin_zero)
    then show "fsum (map (\<lambda>l. fmul (f i l) (Fin 0)) [0..<k]) = Fin 0"
      by (simp only: fsum_zeros)
  qed
  then show ?thesis
    using assms(1) by (simp only: mmul_tab)
qed

lemma first_step_innovation:
  assumes "0 < k" and "\<And>i l. i < k \<Longrightarrow> l < k \<Longrightarrow> is_fin (f i l)"
    and "\<And>l. l < k \<Longrightarrow> is_fin (h 0 l)"
  shows "fst (snd (spec_step k (tab k k f) G (tab 1 k h) (tab k 1 (\<lambda>i j. Fin 0), V) y_t)) = y_t"
proof -
  have 1: "mmul (tab k k f) (tab k 1 (\<lambda>i j. Fin 0)) = tab k 1 (\<lambda>i j. Fin 0)"
    using assms(1,2) by (rule mmul_zero_column)
  have 2: "mmul (tab 1 k h) (tab k 1 (\<lambda>i j. Fin 0)) = tab 1 1 (\<lambda>i j. Fin 0)"
    using assms(1,3) by (intro mmul_zero_column) auto
  show ?thesis
    by (simp only: spec_step_def Let_def prod.case fst_conv snd_conv 1 2)
      (simp add: scalar_tab fsub_zero)
qed

text \<open>
  C10. For a coefficient vector \<open>\<theta>\<close> (of finite numbers, at least the three AR
  coefficients) and observations \<open>y\<close> of length \<open>N \<ge> 1\<close>, the first innovation is the first
  observation, \<open>e[0] = y[0]\<close>: the state starts at the zero vector, so the first
  prediction is 0.
\<close>

theorem first_innovation:
  assumes "3 \<le> length theta" and "\<forall>v \<in> set (take 3 theta). is_fin v"
    and "0 < N" and "length y = N"
  shows "\<exists>F G H Q e r. initialize_FGHQ (take 3 theta) (take 2 (drop 3 theta)) = Inr (F, G, H, Q)
     \<and> kalman_filter F G H N y 3 = Inr (e, r) \<and> e ! 0 = y ! 0"
proof -
  define a where "a = take 3 theta"
  define b where "b = take 2 (drop 3 theta)"
  note bt = builder_three [OF assms(1), folded a_def b_def]
  have k: "max (length a) (length b + 1) = 3"
    using assms(1) by (auto simp: a_def b_def)
  have la: "length a = 3"
    using assms(1) by (simp add: a_def)
  have fin_a: "is_fin (a ! i)" if "i < 3" for i
    using assms(2) that la by (simp add: a_def [symmetric])
  have kf: "kalman_filter (spec_F a b) (spec_G a b) (spec_H a b) N y 3
      = Inr (spec_kalman 3 (spec_F a b) (spec_G a b) (spec_H a b) y)"
    using kalman_filter_spec [OF _ bt(2,3,4), of N y] assms(4) by simp
  obtain y0 ys where y: "y = y0 # ys"
    using assms(3,4) by (cases y) auto
  have "fst (snd (spec_step 3 (spec_F a b) (spec_G a b) (spec_H a b)
          (tab 3 1 (\<lambda>i j. Fin 0), tab 3 3 (\<lambda>i j. if i = j then Fin 100 else Fin 0)) y0)) = y0"
    unfolding spec_F_def spec_H_def Let_def k
    by (rule first_step_innovation) (auto simp: la fin_a)
  then have "fst (spec_kalman 3 (spec_F a b) (spec_G a b) (spec_H a b) y) ! 0 = y ! 0"
    by (simp add: spec_kalman_def y split_beta)
  moreover have "kalman_filter (spec_F a b) (spec_G a b) (spec_H a b) N y 3
      = Inr (fst (spec_kalman 3 (spec_F a b) (spec_G a b) (spec_H a b) y),
             snd (spec_kalman 3 (spec_F a b) (spec_G a b) (spec_H a b) y))"
    using kf by simp
  ultimately show ?thesis
    using bt(1) unfolding a_def b_def by blast
qed

theorem first_innovation_witness:
  "3 \<le> length [Fin (1 / 2), Fin 0, Fin 0, Fin 0, Fin 0]
   \<and> is_fin (Fin (1 / 2)) \<and> is_fin (Fin 0)
   \<and> (0 :: nat) < 2 \<and> length [Fin 7, Fin 1] = 2
   \<and> (\<exists>F G H Q e r.
        initialize_FGHQ (take 3 [Fin (1 / 2), Fin 0, Fin 0, Fin 0, Fin 0])
          (take 2 (drop 3 [Fin (1 / 2), Fin 0, Fin 0, Fin 0, Fin 0])) = Inr (F, G, H, Q)
        \<and> kalman_filter F G H 2 [Fin 7, Fin 1] 3 = Inr (e, r) \<and> e ! 0 = [Fin 7, Fin 1] ! 0)"
proof -
  have h: "3 \<le> length [Fin (1 / 2), Fin 0, Fin 0, Fin 0, Fin 0]"
    "\<forall>v \<in> set (take 3 [Fin (1 / 2), Fin 0, Fin 0, Fin 0, Fin 0]). is_fin v"
    "(0 :: nat) < 2" "length [Fin 7, Fin 1] = 2"
    by (simp_all add: is_fin_def)
  show ?thesis
    using h first_innovation [OF h] by simp
qed

section \<open>Quadratic forms of real matrices\<close>

lemma qf_bil: "qf k A v = bil k A v v"
  by (simp add: qf_def bil_def)

lemma bil_add_left: "bil k A (\<lambda>i. u i + w i) v = bil k A u v + bil k A w v"
  by (simp add: bil_def algebra_simps sum.distrib)

lemma bil_add_right: "bil k A u (\<lambda>i. v i + w i) = bil k A u v + bil k A u w"
  by (simp add: bil_def algebra_simps sum.distrib)

lemma bil_scale_left: "bil k A (\<lambda>i. s * u i) v = s * bil k A u v"
  by (simp add: bil_def sum_distrib_left mult.assoc)

lemma bil_scale_right: "bil k A u (\<lambda>i. s * v i) = s * bil k A u v"
  by (simp add: bil_def sum_distrib_left mult_ac)

lemma sum_unit_right:
  assumes "0 < (k :: nat)"
  shows "(\<Sum>j<k. a j * (if j = 0 then 1 else 0 :: real)) = a 0"
proof -
  have "(\<Sum>j<k. a j * (if j = 0 then 1 else 0 :: real)) = (\<Sum>j<k. if j = 0 then a 0 else 0)"
    by (intro sum.cong refl) auto
  then show ?thesis
    using assms by simp
qed

lemma sum_unit_left:
  assumes "0 < (k :: nat)"
  shows "(\<Sum>j<k. (if j = 0 then 1 else 0 :: real) * a j) = a 0"
  using sum_unit_right [OF assms, of a] by (simp add: mult.commute)

lemma bil_unit_left:
  assumes "0 < k"
  shows "bil k A (\<lambda>i. if i = 0 then 1 else 0) v = (\<Sum>j<k. A 0 j * v j)"
proof -
  have "bil k A (\<lambda>i. if i = 0 then 1 else 0) v
      = (\<Sum>i<k. if i = 0 then (\<Sum>j<k. A 0 j * v j) else 0)"
    unfolding bil_def by (intro sum.cong refl) auto
  also have "\<dots> = (\<Sum>j<k. A 0 j * v j)"
    using assms by simp
  finally show ?thesis .
qed

lemma bil_unit_right:
  assumes "0 < k"
  shows "bil k A u (\<lambda>i. if i = 0 then 1 else 0) = (\<Sum>i<k. u i * A i 0)"
proof -
  have "bil k A u (\<lambda>i. if i = 0 then 1 else 0)
      = (\<Sum>i<k. \<Sum>j<k. if j = 0 then u i * A i 0 else 0)"
    unfolding bil_def by (intro sum.cong refl) auto
  also have "\<dots> = (\<Sum>i<k. u i * A i 0)"
    using assms by simp
  finally show ?thesis .
qed

lemma bil_transform:
  "bil k (\<lambda>i j. \<Sum>l<k. (\<Sum>m<k. F i m * V m l) * F j l) u v
   = bil k V (\<lambda>m. \<Sum>i<k. u i * F i m) (\<lambda>l. \<Sum>j<k. F j l * v j)"
proof -
  have "bil k (\<lambda>i j. \<Sum>l<k. (\<Sum>m<k. F i m * V m l) * F j l) u v
      = (\<Sum>i<k. \<Sum>j<k. \<Sum>l<k. \<Sum>m<k. u i * F i m * V m l * (F j l * v j))"
    unfolding bil_def
    by (intro sum.cong refl) (simp add: sum_distrib_left sum_distrib_right mult_ac)
  also have "\<dots> = (\<Sum>i<k. \<Sum>l<k. \<Sum>j<k. \<Sum>m<k. u i * F i m * V m l * (F j l * v j))"
    by (rule sum.cong [OF refl]) (rule sum.swap)
  also have "\<dots> = (\<Sum>i<k. \<Sum>l<k. \<Sum>m<k. \<Sum>j<k. u i * F i m * V m l * (F j l * v j))"
    by (rule sum.cong [OF refl], rule sum.cong [OF refl]) (rule sum.swap)
  also have "\<dots> = (\<Sum>l<k. \<Sum>i<k. \<Sum>m<k. \<Sum>j<k. u i * F i m * V m l * (F j l * v j))"
    by (rule sum.swap)
  also have "\<dots> = (\<Sum>l<k. \<Sum>m<k. \<Sum>i<k. \<Sum>j<k. u i * F i m * V m l * (F j l * v j))"
    by (rule sum.cong [OF refl]) (rule sum.swap)
  also have "\<dots> = (\<Sum>m<k. \<Sum>l<k. \<Sum>i<k. \<Sum>j<k. u i * F i m * V m l * (F j l * v j))"
    by (rule sum.swap)
  also have "\<dots> = bil k V (\<lambda>m. \<Sum>i<k. u i * F i m) (\<lambda>l. \<Sum>j<k. F j l * v j)"
    unfolding bil_def
    by (intro sum.cong refl) (simp add: sum_distrib_left sum_distrib_right mult_ac)
  finally show ?thesis .
qed

lemma bil_rank_one:
  "bil k (\<lambda>i j. g i * g j) u v = (\<Sum>i<k. u i * g i) * (\<Sum>j<k. g j * v j)"
  unfolding bil_def sum_product
  by (intro sum.cong refl) (simp add: mult_ac)


lemma bil_add_mat: "bil k (\<lambda>i j. A i j + B i j) u v = bil k A u v + bil k B u v"
  by (simp add: bil_def algebra_simps sum.distrib)

lemma bil_sub_mat: "bil k (\<lambda>i j. A i j - B i j) u v = bil k A u v - bil k B u v"
  by (simp add: bil_def algebra_simps sum_subtractf)

lemma bil_outer:
  "bil k (\<lambda>i j. a i * b j / c) u v = (\<Sum>i<k. u i * a i) * (\<Sum>j<k. b j * v j) / c"
proof -
  have "bil k (\<lambda>i j. a i * b j / c) u v = (\<Sum>i<k. \<Sum>j<k. (u i * a i) * (b j * v j)) / c"
    unfolding bil_def sum_divide_distrib
    by (intro sum.cong refl) simp
  then show ?thesis by (simp add: sum_product)
qed

lemma qf_rpredict:
  "qf k (rpredict k F g V) v = qf k V (\<lambda>m. \<Sum>i<k. v i * F i m) + (\<Sum>i<k. v i * g i)\<^sup>2"
proof -
  have "qf k (rpredict k F g V) v
      = bil k (\<lambda>i j. \<Sum>l<k. (\<Sum>m<k. F i m * V m l) * F j l) v v + bil k (\<lambda>i j. g i * g j) v v"
    unfolding qf_bil rpredict_def [abs_def] by (rule bil_add_mat)
  also have "bil k (\<lambda>i j. \<Sum>l<k. (\<Sum>m<k. F i m * V m l) * F j l) v v
      = bil k V (\<lambda>m. \<Sum>i<k. v i * F i m) (\<lambda>l. \<Sum>j<k. F j l * v j)"
    by (rule bil_transform)
  also have "(\<lambda>l. \<Sum>j<k. F j l * v j) = (\<lambda>m. \<Sum>i<k. v i * F i m)"
    by (simp add: mult.commute)
  also have "bil k (\<lambda>i j. g i * g j) v v = (\<Sum>i<k. v i * g i)\<^sup>2"
    unfolding bil_rank_one power2_eq_square by (simp add: mult.commute)
  finally show ?thesis by (simp add: qf_bil)
qed

lemma rpsd_rpredict: "rpsd k V \<Longrightarrow> rpsd k (rpredict k F g V)"
  by (simp add: rpsd_def qf_rpredict)

lemma rpredict_00:
  assumes "rpsd k V" "0 < k" "g 0 = 1"
  shows "1 \<le> rpredict k F g V 0 0"
proof -
  let ?e = "\<lambda>i :: nat. if i = 0 then 1 else 0 :: real"
  have "qf k (rpredict k F g V) ?e = rpredict k F g V 0 0"
    using assms(2) by (simp add: qf_bil bil_unit_left sum_unit_right)
  moreover have "(\<Sum>i<k. ?e i * g i) = 1"
    using assms(2,3) by (simp add: sum_unit_left)
  moreover have "0 \<le> qf k V (\<lambda>m. \<Sum>i<k. ?e i * F i m)"
    using assms(1) by (simp add: rpsd_def)
  ultimately show ?thesis
    using qf_rpredict [of k F g V ?e] by simp
qed

lemma rsym_rpredict:
  assumes "rsym k V"
  shows "rpredict k F g V i j = rpredict k F g V j i"
proof -
  have "(\<Sum>l<k. (\<Sum>m<k. F i m * V m l) * F j l) = (\<Sum>l<k. \<Sum>m<k. F i m * V m l * F j l)"
    by (simp add: sum_distrib_right)
  also have "\<dots> = (\<Sum>m<k. \<Sum>l<k. F i m * V m l * F j l)"
    by (rule sum.swap)
  also have "\<dots> = (\<Sum>m<k. \<Sum>l<k. F j l * V l m * F i m)"
    using assms by (intro sum.cong refl) (simp add: rsym_def)
  also have "\<dots> = (\<Sum>l<k. (\<Sum>m<k. F j m * V m l) * F i l)"
    by (simp add: sum_distrib_right)
  finally show ?thesis
    by (simp add: rpredict_def)
qed

lemma rsym_rupdate:
  assumes "rsym k P" "0 < k"
  shows "rsym k (rupdate P)"
  using assms by (simp add: rsym_def rupdate_def)

lemma qf_rupdate:
  assumes "rsym k P" "0 < k" "0 < P 0 0"
  shows "qf k (rupdate P) v
       = qf k P (\<lambda>i. v i + (- (\<Sum>i<k. v i * P i 0) / P 0 0) * (if i = 0 then 1 else 0))"
proof -
  define B where "B = (\<Sum>i<k. v i * P i 0)"
  define s where "s = - B / P 0 0"
  let ?e = "\<lambda>i :: nat. if i = 0 then 1 else 0 :: real"
  have B': "(\<Sum>j<k. P 0 j * v j) = B"
    unfolding B_def using assms(1,2) by (intro sum.cong refl) (simp add: rsym_def mult.commute)
  have "qf k (rupdate P) v = qf k P v - B * B / P 0 0"
    unfolding qf_bil rupdate_def [abs_def] bil_sub_mat bil_outer B' B_def [symmetric] ..
  moreover have "qf k P (\<lambda>i. v i + s * ?e i) = qf k P v + s * B + s * B + s * (s * P 0 0)"
    using assms(2)
    by (simp add: qf_bil bil_add_left bil_add_right bil_scale_left bil_scale_right
        bil_unit_left bil_unit_right sum_unit_right B' B_def [symmetric])
  moreover have "s * B + s * B + s * (s * P 0 0) = - (B * B / P 0 0)"
    using assms(3) by (simp add: s_def field_simps)
  ultimately show ?thesis
    by (simp add: s_def B_def)
qed

lemma rpsd_rupdate:
  assumes "rsym k P" "0 < k" "0 < P 0 0" "rpsd k P"
  shows "rpsd k (rupdate P)"
  using assms(4) by (simp add: rpsd_def qf_rupdate [OF assms(1-3)])

section \<open>The covariance recursion on real matrices\<close>

lemma fsum_lift: "fsum (map (\<lambda>l. Fin (f l)) [0..<k]) = Fin (\<Sum>l<k. f l)"
proof -
  have "fsum (map (\<lambda>l. Fin (f l)) [0..<k]) = fsum (map Fin (map f [0..<k]))"
    by (simp add: comp_def)
  also have "\<dots> = Fin (sum_list (map f [0..<k]))"
    by (rule fsum_Fin)
  also have "sum_list (map f [0..<k]) = (\<Sum>l<k. f l)"
    by (simp add: interv_sum_list_conv_sum_set_nat atLeast0LessThan)
  finally show ?thesis .
qed

lemma lift_cong: "(\<And>i j. i < m \<Longrightarrow> j < n \<Longrightarrow> A i j = B i j) \<Longrightarrow> lift m n A = lift m n B"
  unfolding lift_def by (rule tab_cong) simp

lemma mmul_lift:
  assumes "0 < k"
  shows "mmul (lift m k A) (lift k n B) = lift m n (\<lambda>i j. \<Sum>l<k. A i l * B l j)"
  unfolding lift_def mmul_tab [OF assms] by (simp add: fsum_lift)


lemma mT_lift: "0 < m \<Longrightarrow> mT (lift m n A) = lift n m (\<lambda>i j. A j i)"
  by (simp add: lift_def mT_tab)

lemma mplus_lift: "mplus (lift m n A) (lift m n B) = lift m n (\<lambda>i j. A i j + B i j)"
  by (simp add: lift_def mplus_def map2_tab)

lemma mminus_lift: "mminus (lift m n A) (lift m n B) = lift m n (\<lambda>i j. A i j - B i j)"
  by (simp add: lift_def mminus_def map2_tab fsub_def)


lemma eye_lift: "eye k = lift k k (\<lambda>i j. if i = j then 1 else 0)"
  unfolding lift_def eye_tab by (rule tab_cong) simp

lemma sdiv_lift: "c \<noteq> 0 \<Longrightarrow> sdiv (lift m n A) (Fin c) = lift m n (\<lambda>i j. A i j / c)"
  by (simp add: lift_def sdiv_tab)

lemma scalar_lift: "scalar (lift (Suc 0) (Suc 0) A) = Fin (A 0 0)"
  by (simp add: lift_def scalar_tab)

lemma predict_lift:
  assumes "0 < k"
  shows "mplus (mmul (mmul (lift k k F) (lift k k V)) (mT (lift k k F)))
           (mmul (lift k 1 G) (mT (lift k 1 G)))
       = lift k k (rpredict k F (\<lambda>i. G i 0) V)"
  using assms
  by (simp add: mmul_lift mT_lift mplus_lift rpredict_def [abs_def])


lemma update_lift:
  assumes "0 < k" "P 0 0 \<noteq> 0"
  shows "mmul (mminus (eye k)
           (mmul (sdiv (mmul (lift k k P) (mT (lift 1 k (\<lambda>i j. if j = 0 then 1 else 0))))
                   (scalar (mmul (mmul (lift 1 k (\<lambda>i j. if j = 0 then 1 else 0)) (lift k k P))
                             (mT (lift 1 k (\<lambda>i j. if j = 0 then 1 else 0))))))
              (lift 1 k (\<lambda>i j. if j = 0 then 1 else 0))))
         (lift k k P)
       = lift k k (rupdate P)"
proof -
  let ?H = "lift 1 k (\<lambda>i j. if j = 0 then 1 else 0)"
  have HT: "mT ?H = lift k 1 (\<lambda>i j. if i = 0 then 1 else 0)"
    by (simp add: mT_lift)
  have HP: "mmul ?H (lift k k P) = lift 1 k (\<lambda>i j. P 0 j)"
    using assms(1) by (simp add: mmul_lift sum_unit_left)
  have HPH: "mmul (lift 1 k (\<lambda>i j. P 0 j)) (lift k 1 (\<lambda>i j. if i = 0 then 1 else 0))
      = lift 1 1 (\<lambda>i j. P 0 0)"
    using assms(1) by (simp add: mmul_lift sum_unit_right)
  have PH: "mmul (lift k k P) (lift k 1 (\<lambda>i j. if i = 0 then 1 else 0)) = lift k 1 (\<lambda>i j. P i 0)"
    using assms(1) by (simp add: mmul_lift sum_unit_right)
  have K: "sdiv (lift k 1 (\<lambda>i j. P i 0)) (Fin (P 0 0)) = lift k 1 (\<lambda>i j. P i 0 / P 0 0)"
    using assms(2) by (rule sdiv_lift)
  have KH: "mmul (lift k 1 (\<lambda>i j. P i 0 / P 0 0)) ?H
      = lift k k (\<lambda>i j. P i 0 / P 0 0 * (if j = 0 then 1 else 0))"
    by (simp add: mmul_lift)
  have IKH: "mminus (eye k) (lift k k (\<lambda>i j. P i 0 / P 0 0 * (if j = 0 then 1 else 0)))
      = lift k k (\<lambda>i j. (if i = j then 1 else 0) - P i 0 / P 0 0 * (if j = 0 then 1 else 0))"
    by (simp add: eye_lift mminus_lift)
  have V: "mmul (lift k k (\<lambda>i j. (if i = j then 1 else 0) - P i 0 / P 0 0 * (if j = 0 then 1 else 0)))
          (lift k k P)
      = lift k k (rupdate P)"
  proof -
    have "(\<Sum>l<k. ((if i = l then 1 else 0) - P i 0 / P 0 0 * (if l = 0 then 1 else 0)) * P l j)
        = rupdate P i j" if "i < k" for i j
    proof -
      have "(\<Sum>l<k. ((if i = l then 1 else 0) - P i 0 / P 0 0 * (if l = 0 then 1 else 0)) * P l j)
          = (\<Sum>l<k. (if i = l then P l j else 0)) - P i 0 / P 0 0 * (\<Sum>l<k. (if l = 0 then 1 else 0) * P l j)"
        unfolding sum_distrib_left sum_subtractf [symmetric]
        by (intro sum.cong refl) (simp add: algebra_simps)
      also have "\<dots> = P i j - P i 0 / P 0 0 * P 0 j"
        using that assms(1) by (simp add: sum_unit_left)
      finally show ?thesis by (simp add: rupdate_def)
    qed
    then show ?thesis
      using assms(1) unfolding mmul_lift [OF assms(1)] by (intro lift_cong) simp
  qed
  show ?thesis
    unfolding HT HP HPH scalar_lift [of "\<lambda>i j. P 0 0", unfolded One_nat_def [symmetric]] PH K KH IKH V ..
qed

lemma is_mat_lift [simp]: "is_mat m n (lift m n A)"
  by (simp add: lift_def)






lemma spec_step_V:
  "snd (fst (spec_step k F G H (x, V) y_t))
   = mmul (mminus (eye k)
        (mmul (sdiv (mmul (mplus (mmul (mmul F V) (mT F)) (mmul G (mT G))) (mT H))
                (scalar (mmul (mmul H (mplus (mmul (mmul F V) (mT F)) (mmul G (mT G)))) (mT H))))
           H))
      (mplus (mmul (mmul F V) (mT F)) (mmul G (mT G)))"
  by (simp add: spec_step_def Let_def)

lemma step_covariance:
  assumes "0 < k" and "rsym k Vr" and "rpsd k Vr" and "Gr 0 0 = 1"
  shows "snd (fst (spec_step k (lift k k Fr) (lift k 1 Gr) (lift 1 k (\<lambda>i j. if j = 0 then 1 else 0))
                (x, lift k k Vr) y_t))
       = lift k k (rupdate (rpredict k Fr (\<lambda>i. Gr i 0) Vr))"
    and "rsym k (rupdate (rpredict k Fr (\<lambda>i. Gr i 0) Vr))"
    and "rpsd k (rupdate (rpredict k Fr (\<lambda>i. Gr i 0) Vr))"
proof -
  let ?P = "rpredict k Fr (\<lambda>i. Gr i 0) Vr"
  have P00: "1 \<le> ?P 0 0"
    using assms(3,1,4) by (rule rpredict_00)
  have symP: "rsym k ?P"
    unfolding rsym_def using rsym_rpredict [OF assms(2)] by blast
  have psdP: "rpsd k ?P"
    using assms(3) by (rule rpsd_rpredict)
  show "snd (fst (spec_step k (lift k k Fr) (lift k 1 Gr) (lift 1 k (\<lambda>i j. if j = 0 then 1 else 0))
                (x, lift k k Vr) y_t)) = lift k k (rupdate ?P)"
    unfolding spec_step_V predict_lift [OF assms(1)]
    using P00 by (intro update_lift assms(1)) simp
  show "rsym k (rupdate ?P)"
    using symP assms(1) by (rule rsym_rupdate)
  show "rpsd k (rupdate ?P)"
    using symP assms(1) _ psdP by (rule rpsd_rupdate) (use P00 in simp)
qed

lemma cov_inv_step:
  assumes "0 < k" and "Gr 0 0 = 1" and "cov_inv k s"
  shows "cov_inv k (fst (spec_step k (lift k k Fr) (lift k 1 Gr)
                          (lift 1 k (\<lambda>i j. if j = 0 then 1 else 0)) s y_t))"
proof -
  obtain x V where s: "s = (x, V)"
    by (cases s)
  from assms(3) obtain Vr where V: "V = lift k k Vr" and sym: "rsym k Vr" and psd: "rpsd k Vr"
    and x: "is_mat k 1 x"
    by (auto simp: cov_inv_def s)
  note sc = step_covariance(1) [where k = k and Vr = Vr and Gr = Gr and Fr = Fr and x = x and y_t = y_t,
      OF assms(1) sym psd assms(2)]
    step_covariance(2,3) [where k = k and Vr = Vr and Gr = Gr and Fr = Fr, OF assms(1) sym psd assms(2)]
  have "is_mat k 1 (fst (fst (spec_step k (lift k k Fr) (lift k 1 Gr)
                          (lift 1 k (\<lambda>i j. if j = 0 then 1 else 0)) (x, lift k k Vr) y_t)))"
    using assms(1) x by (intro spec_step_is_mat) simp_all
  then show ?thesis
    unfolding cov_inv_def s V using sc by blast
qed


lemma cov_inv_init:
  "cov_inv k (tab k 1 (\<lambda>i j. Fin 0), tab k k (\<lambda>i j. if i = j then Fin 100 else Fin 0))"
proof -
  have "tab k k (\<lambda>i j. if i = j then Fin 100 else Fin 0) = lift k k (\<lambda>i j. if i = j then 100 else 0)"
    unfolding lift_def by (rule tab_cong) simp
  moreover have "rsym k (\<lambda>i j. if i = j then 100 else 0)"
    by (simp add: rsym_def)
  moreover have "rpsd k (\<lambda>i j. if i = j then 100 else 0)"
    unfolding rpsd_def
  proof
    fix v :: "nat \<Rightarrow> real"
    have "qf k (\<lambda>i j. if i = j then 100 else 0) v = (\<Sum>i<k. \<Sum>j<k. if i = j then 100 * (v j * v j) else 0)"
      unfolding qf_def by (intro sum.cong refl) simp
    also have "\<dots> = (\<Sum>i<k. 100 * (v i * v i))"
      by (intro sum.cong refl) simp
    also have "0 \<le> \<dots>"
      by (intro sum_nonneg) simp
    finally show "0 \<le> qf k (\<lambda>i j. if i = j then 100 else 0) v" .
  qed
  ultimately show ?thesis
    unfolding cov_inv_def by auto
qed

section \<open>The innovation variances in exact arithmetic\<close>

lemma Fin_real_of: "is_fin v \<Longrightarrow> Fin (real_of v) = v"
  by (cases v) (simp_all add: is_fin_def real_of_def)

lemma builder_lift:
  assumes "length a = 3" and "length b \<le> 2" and "\<forall>v \<in> set a. is_fin v" and "\<forall>v \<in> set b. is_fin v"
  shows "spec_F a b
       = lift 3 3 (\<lambda>i j. if j = 0 \<and> i < 3 then real_of (a ! i) else if j = i + 1 then 1 else 0)"
    and "spec_G a b
       = lift 3 1 (\<lambda>i j. if i = 0 then 1 else if i - 1 < length b then - real_of (b ! (i - 1)) else 0)"
    and "spec_H a b = lift 1 3 (\<lambda>i j. if j = 0 then 1 else 0)"
proof -
  have k: "max (length a) (length b + 1) = 3"
    using assms(1,2) by auto
  have a: "Fin (real_of (a ! i)) = a ! i" if "i < 3" for i
    using assms(1,3) that by (intro Fin_real_of) simp
  have b: "Fin (real_of (b ! i)) = b ! i" if "i < length b" for i
    using assms(4) that by (intro Fin_real_of) simp
  show "spec_F a b
       = lift 3 3 (\<lambda>i j. if j = 0 \<and> i < 3 then real_of (a ! i) else if j = i + 1 then 1 else 0)"
    unfolding spec_F_def Let_def assms(1) k [unfolded assms(1)] lift_def
    by (rule tab_cong) (simp add: a)
  show "spec_G a b
       = lift 3 1 (\<lambda>i j. if i = 0 then 1 else if i - 1 < length b then - real_of (b ! (i - 1)) else 0)"
    unfolding spec_G_def Let_def k lift_def
  proof (rule tab_cong)
    fix i j :: nat
    have "fneg (b ! (i - 1)) = Fin (- real_of (b ! (i - 1)))" if "i - 1 < length b"
      using b [OF that, symmetric] by (metis fneg.simps(1))
    then show "(if i = 0 then Fin 1 else if i - 1 < length b then fneg (b ! (i - 1)) else Fin 0)
        = Fin (if i = 0 then 1 else if i - 1 < length b then - real_of (b ! (i - 1)) else 0)"
      by simp
  qed
  show "spec_H a b = lift 1 3 (\<lambda>i j. if j = 0 then 1 else 0)"
    unfolding spec_H_def Let_def k lift_def
    by (rule tab_cong) simp
qed

lemma innovation_variance_lift:
  assumes "0 < k"
  shows "scalar (mmul (mmul (lift 1 k (\<lambda>i j. if j = 0 then 1 else 0)) (lift k k P))
                  (mT (lift 1 k (\<lambda>i j. if j = 0 then 1 else 0))))
       = Fin (P 0 0)"
proof -
  let ?H = "lift 1 k (\<lambda>i j. if j = 0 then 1 else 0)"
  have HT: "mT ?H = lift k 1 (\<lambda>i j. if i = 0 then 1 else 0)"
    by (simp add: mT_lift)
  have HP: "mmul ?H (lift k k P) = lift 1 k (\<lambda>i j. P 0 j)"
    using assms(1) by (simp add: mmul_lift sum_unit_left)
  have HPH: "mmul (lift 1 k (\<lambda>i j. P 0 j)) (lift k 1 (\<lambda>i j. if i = 0 then 1 else 0))
      = lift 1 1 (\<lambda>i j. P 0 0)"
    using assms(1) by (simp add: mmul_lift sum_unit_right)
  show ?thesis
    unfolding HT HP HPH by (simp add: scalar_lift)
qed

lemma spec_step_r:
  "snd (snd (spec_step k F G H (x, V) y_t))
   = scalar (mmul (mmul H (mplus (mmul (mmul F V) (mT F)) (mmul G (mT G)))) (mT H))"
  by (simp add: spec_step_def Let_def)

lemma step_variance:
  assumes "0 < k" and "rpsd k Vr" and "Gr 0 0 = 1"
  shows "\<exists>c\<ge>1. snd (snd (spec_step k (lift k k Fr) (lift k 1 Gr)
                        (lift 1 k (\<lambda>i j. if j = 0 then 1 else 0)) (x, lift k k Vr) y_t)) = Fin c"
proof -
  have "snd (snd (spec_step k (lift k k Fr) (lift k 1 Gr)
                        (lift 1 k (\<lambda>i j. if j = 0 then 1 else 0)) (x, lift k k Vr) y_t))
      = Fin (rpredict k Fr (\<lambda>i. Gr i 0) Vr 0 0)"
    unfolding spec_step_r predict_lift [OF assms(1)] innovation_variance_lift [OF assms(1)] ..
  moreover have "1 \<le> rpredict k Fr (\<lambda>i. Gr i 0) Vr 0 0"
    using assms(2,1,3) by (rule rpredict_00)
  ultimately show ?thesis by blast
qed

lemma filter_variances:
  assumes "0 < k" and "Gr 0 0 = 1"
  shows "cov_inv k s \<Longrightarrow>
    \<forall>v \<in> set (snd (spec_filter k (lift k k Fr) (lift k 1 Gr)
                      (lift 1 k (\<lambda>i j. if j = 0 then 1 else 0)) s ys)). \<exists>c\<ge>1. v = Fin c"
proof (induction ys arbitrary: s)
  case Nil
  then show ?case by simp
next
  case (Cons y_t ys)
  obtain x V where s: "s = (x, V)"
    by (cases s)
  from Cons.prems obtain Vr where V: "V = lift k k Vr" and psd: "rpsd k Vr"
    by (auto simp: cov_inv_def s)
  have 1: "\<exists>c\<ge>1. snd (snd (spec_step k (lift k k Fr) (lift k 1 Gr)
                        (lift 1 k (\<lambda>i j. if j = 0 then 1 else 0)) s y_t)) = Fin c"
    unfolding s V using assms(1) psd assms(2) by (rule step_variance)
  have "cov_inv k (fst (spec_step k (lift k k Fr) (lift k 1 Gr)
                          (lift 1 k (\<lambda>i j. if j = 0 then 1 else 0)) s y_t))"
    using assms Cons.prems by (rule cov_inv_step)
  from Cons.IH [OF this] 1 show ?case
    by (simp add: split_beta)
qed

lemma builder_as_lift:
  assumes "3 \<le> length theta" and "\<forall>v \<in> set (take 5 theta). is_fin v"
  shows "\<exists>Fr Gr. initialize_FGHQ (take 3 theta) (take 2 (drop 3 theta))
            = Inr (lift 3 3 Fr, lift 3 1 Gr, lift 1 3 (\<lambda>i j. if j = 0 then 1 else 0), eye 3)
          \<and> Gr 0 0 = 1"
proof -
  define a where "a = take 3 theta"
  define b where "b = take 2 (drop 3 theta)"
  define Fr where "Fr = (\<lambda>i j :: nat.
    if j = 0 \<and> i < 3 then real_of (a ! i) else if j = i + 1 then 1 else 0 :: real)"
  define Gr where "Gr = (\<lambda>i j :: nat.
    if i = 0 then 1 else if i - 1 < length b then - real_of (b ! (i - 1)) else 0 :: real)"
  note bt = builder_three [OF assms(1), folded a_def b_def]
  have "a = take 3 (take 5 theta)" "b = drop 3 (take 5 theta)"
    by (simp_all add: a_def b_def drop_take)
  then have "set a \<subseteq> set (take 5 theta)" "set b \<subseteq> set (take 5 theta)"
    by (metis set_take_subset, metis set_drop_subset)
  then have fin: "\<forall>v \<in> set a. is_fin v" "\<forall>v \<in> set b. is_fin v"
    using assms(2) by auto
  have len: "length a = 3" "length b \<le> 2"
    using assms(1) by (simp_all add: a_def b_def)
  note bl = builder_lift [OF len fin, folded Fr_def Gr_def]
  have G00: "Gr 0 0 = 1"
    by (simp add: Gr_def)
  from bt(1) have "initialize_FGHQ a b
      = Inr (lift 3 3 Fr, lift 3 1 Gr, lift 1 3 (\<lambda>i j. if j = 0 then 1 else 0), eye 3)"
    unfolding bl .
  then have "initialize_FGHQ (take 3 theta) (take 2 (drop 3 theta))
      = Inr (lift 3 3 Fr, lift 3 1 Gr, lift 1 3 (\<lambda>i j. if j = 0 then 1 else 0), eye 3)"
    unfolding a_def b_def .
  with G00 show ?thesis by blast
qed

text \<open>
  In exact arithmetic, where a finite value is the real number it stands for, the
  innovation variances of the objective are never below 1: \<open>r[t] = (F V F\<^sup>T)[0, 0] + G[0]\<^sup>2\<close>
  with \<open>V\<close> positive semi-definite and \<open>G[0] = 1\<close>. The float64 values are another
  matter: see the claims that rounding decides.
\<close>

lemma innovation_variances_ge_one:
  assumes "3 \<le> length theta" and "\<forall>v \<in> set (take 5 theta). is_fin v" and "N \<le> length y"
  shows "\<exists>F G H Q e r. initialize_FGHQ (take 3 theta) (take 2 (drop 3 theta)) = Inr (F, G, H, Q)
     \<and> kalman_filter F G H N y 3 = Inr (e, r) \<and> (\<forall>v \<in> set r. \<exists>c\<ge>1. v = Fin c)"
proof -
  from builder_as_lift [OF assms(1,2)] obtain Fr Gr
    where b: "initialize_FGHQ (take 3 theta) (take 2 (drop 3 theta))
            = Inr (lift 3 3 Fr, lift 3 1 Gr, lift 1 3 (\<lambda>i j. if j = 0 then 1 else 0), eye 3)"
      and G00: "Gr 0 0 = 1"
    by blast
  let ?H = "lift 1 3 (\<lambda>i j. if j = 0 then 1 else 0)"
  have kf: "kalman_filter (lift 3 3 Fr) (lift 3 1 Gr) ?H N y 3
      = Inr (fst (spec_kalman 3 (lift 3 3 Fr) (lift 3 1 Gr) ?H (take N y)),
             snd (spec_kalman 3 (lift 3 3 Fr) (lift 3 1 Gr) ?H (take N y)))"
    using kalman_filter_spec [of 3 "lift 3 3 Fr" "lift 3 1 Gr" ?H N y] assms(3) by simp
  have "\<forall>v \<in> set (snd (spec_kalman 3 (lift 3 3 Fr) (lift 3 1 Gr) ?H (take N y))). \<exists>c\<ge>1. v = Fin c"
    unfolding spec_kalman_def using G00 by (intro filter_variances cov_inv_init) simp_all
  with b kf show ?thesis by blast
qed

section \<open>The float64 filter is the unguarded recursion\<close>

lemmas rnd_defs = rnd_def overflow_def on_grid_def nearest_even_def ties_to_even_def expo_def pow2_def

lemma rnd_examples:
  "rnd (1 / 10) = Fin (3602879701896397 / 36028797018963968)"
  "rnd (2 ^ 53 + 1) = Fin (2 ^ 53)"
  "rnd (2 ^ 53 + 3) = Fin (2 ^ 53 + 4)"
  "rnd (- (2 ^ 60) - 129) = Fin (- (2 ^ 60) - 256)"
  "rnd (2 ^ 1024 - 2 ^ 970) = PInf"
  "rnd (3 / 2 ^ 1075) = Fin (1 / 2 ^ 1073)"
  by (simp_all add: rnd_defs)

lemma dot64_maps: "dot64 (map f xs) (map g xs) = foldl fadd64 (Fin 0) (map (\<lambda>l. fmul64 (f l) (g l)) xs)"
  by (simp add: dot64_def zip_map_map zip_same_conv_map comp_def)

lemma mmul64_tab:
  assumes "0 < k"
  shows "mmul64 (tab m k f) (tab k n g)
       = tab m n (\<lambda>i j. foldl fadd64 (Fin 0) (map (\<lambda>l. fmul64 (f i l) (g l j)) [0..<k]))"
proof -
  have "mmul64 (tab m k f) (tab k n g)
      = map (\<lambda>row. map (\<lambda>j. dot64 row (column (tab k n g) j)) [0..<n]) (tab m k f)"
    using assms by (simp add: mmul64_def)
  also have "\<dots> = map (\<lambda>row. map (\<lambda>j. dot64 row (map (\<lambda>l. g l j) [0..<k])) [0..<n]) (tab m k f)"
    by (simp add: column_tab cong: map_cong)
  also have "\<dots> = tab m n (\<lambda>i j. foldl fadd64 (Fin 0) (map (\<lambda>l. fmul64 (f i l) (g l j)) [0..<k]))"
    by (simp add: tab_def dot64_maps)
  finally show ?thesis .
qed

lemma matmul64_tab:
  assumes "0 < m" "0 < k"
  shows "matmul64 (tab m k f) (tab k n g)
       = Inr (tab m n (\<lambda>i j. foldl fadd64 (Fin 0) (map (\<lambda>l. fmul64 (f i l) (g l j)) [0..<k])))"
  using assms by (simp add: matmul64_def mmul64_tab)

lemma smul64_tab: "smul64 (tab m n f) s = tab m n (\<lambda>i j. fmul64 (f i j) s)"
  by (simp add: smul64_def tab_def)

lemma sdiv64_tab: "sdiv64 (tab m n f) s = tab m n (\<lambda>i j. fdiv64 (f i j) s)"
  by (simp add: sdiv64_def tab_def)

lemma kalman_body64_tab:
  assumes "0 < k" "t < length y" "t < length e" "t < length r"
  shows "kalman_body64 (tab k k f) (tab k 1 g) (tab 1 k h) y k t (tab k 1 xv, tab k k v, e, r)
       = (case spec_step64 k (tab k k f) (tab k 1 g) (tab 1 k h) (tab k 1 xv, tab k k v) (y ! t) of
            ((x', V'), e_t, r_t) \<Rightarrow> Inr (x', V', e[t := e_t], r[t := r_t]))"
  using assms
  by (simp add: kalman_body64_def predict_cov64_def spec_step64_def Let_def matmul64_tab mmul64_tab mT_tab
      madd64_def msub64_def mplus64_def mminus64_def ewise_tab map2_tab smul64_tab sdiv64_tab item_tab scalar_tab eye_tab)

lemma spec_step64_tab:
  assumes "0 < k"
  shows "is_mat k 1 (fst (fst (spec_step64 k (tab k k f) (tab k 1 g) (tab 1 k h) (tab k 1 xv, tab k k v) y_t)))"
    and "is_mat k k (snd (fst (spec_step64 k (tab k k f) (tab k 1 g) (tab 1 k h) (tab k 1 xv, tab k k v) y_t)))"
  using assms
  by (simp_all add: spec_step64_def Let_def mmul64_tab mT_tab
      mplus64_def mminus64_def map2_tab smul64_tab sdiv64_tab eye_tab)

lemma kalman_body64_spec:
  assumes "0 < k" "is_mat k k F" "is_mat k 1 G" "is_mat 1 k H" "is_mat k 1 x" "is_mat k k V"
    and "t < length y" "t < length e" "t < length r"
  shows "kalman_body64 F G H y k t (x, V, e, r)
       = (case spec_step64 k F G H (x, V) (y ! t) of
            ((x', V'), e_t, r_t) \<Rightarrow> Inr (x', V', e[t := e_t], r[t := r_t]))"
proof -
  note eqs = assms(2-6) [THEN is_mat_eq_tab]
  show ?thesis
    apply (subst (1 2) eqs(1))
    apply (subst (1 2) eqs(2))
    apply (subst (1 2) eqs(3))
    apply (subst (1 2) eqs(4))
    apply (subst (1 2) eqs(5))
    apply (rule kalman_body64_tab)
    using assms by simp_all
qed

lemma spec_step64_is_mat:
  assumes "0 < k" "is_mat k k F" "is_mat k 1 G" "is_mat 1 k H" "is_mat k 1 x" "is_mat k k V"
  shows "is_mat k 1 (fst (fst (spec_step64 k F G H (x, V) y_t)))"
    and "is_mat k k (snd (fst (spec_step64 k F G H (x, V) y_t)))"
proof -
  note eqs = assms(2-6) [THEN is_mat_eq_tab]
  show "is_mat k 1 (fst (fst (spec_step64 k F G H (x, V) y_t)))"
    apply (subst eqs(1))
    apply (subst eqs(2))
    apply (subst eqs(3))
    apply (subst eqs(4))
    apply (subst eqs(5))
    apply (rule spec_step64_tab)
    using assms by simp
  show "is_mat k k (snd (fst (spec_step64 k F G H (x, V) y_t)))"
    apply (subst eqs(1))
    apply (subst eqs(2))
    apply (subst eqs(3))
    apply (subst eqs(4))
    apply (subst eqs(5))
    apply (rule spec_step64_tab)
    using assms by simp
qed

lemma loop64_spec:
  assumes "0 < k" "is_mat k k F" "is_mat k 1 G" "is_mat 1 k H"
  shows "is_mat k 1 x \<Longrightarrow> is_mat k k V \<Longrightarrow> t0 + n \<le> length y \<Longrightarrow> t0 + n \<le> length e
    \<Longrightarrow> t0 + n \<le> length r \<Longrightarrow>
    for_loop [t0..<t0 + n] (kalman_body64 F G H y k) (x, V, e, r) =
      Inr (fst (spec_state64 k F G H (x, V) (take n (drop t0 y))),
           snd (spec_state64 k F G H (x, V) (take n (drop t0 y))),
           take t0 e @ fst (spec_filter64 k F G H (x, V) (take n (drop t0 y))) @ drop (t0 + n) e,
           take t0 r @ snd (spec_filter64 k F G H (x, V) (take n (drop t0 y))) @ drop (t0 + n) r)"
proof (induction n arbitrary: t0 x V e r)
  case 0
  then show ?case by (simp add: spec_state64_def)
next
  case (Suc n)
  obtain x' V' e0 r0 where st: "spec_step64 k F G H (x, V) (y ! t0) = ((x', V'), e0, r0)"
    by (metis prod.exhaust)
  have t0: "t0 < length y" "t0 < length e" "t0 < length r"
    using Suc.prems by auto
  have shapes: "is_mat k 1 x'" "is_mat k k V'"
    using spec_step64_is_mat [OF assms Suc.prems(1,2), of "y ! t0"] st by auto
  have body: "kalman_body64 F G H y k t0 (x, V, e, r) = Inr (x', V', e[t0 := e0], r[t0 := r0])"
    using kalman_body64_spec [OF assms Suc.prems(1,2) t0] st by simp
  have ys: "take (Suc n) (drop t0 y) = y ! t0 # take n (drop (Suc t0) y)"
    using t0 by (simp add: Cons_nth_drop_Suc [symmetric])
  have range: "[t0..<t0 + Suc n] = t0 # [Suc t0..<Suc t0 + n]"
    by (simp add: upt_conv_Cons)
  have IH: "for_loop [Suc t0..<Suc t0 + n] (kalman_body64 F G H y k) (x', V', e[t0 := e0], r[t0 := r0]) =
      Inr (fst (spec_state64 k F G H (x', V') (take n (drop (Suc t0) y))),
           snd (spec_state64 k F G H (x', V') (take n (drop (Suc t0) y))),
           take (Suc t0) (e[t0 := e0]) @ fst (spec_filter64 k F G H (x', V') (take n (drop (Suc t0) y)))
             @ drop (Suc t0 + n) (e[t0 := e0]),
           take (Suc t0) (r[t0 := r0]) @ snd (spec_filter64 k F G H (x', V') (take n (drop (Suc t0) y)))
             @ drop (Suc t0 + n) (r[t0 := r0]))"
    using Suc.prems by (intro Suc.IH shapes) auto
  have state: "spec_state64 k F G H (x, V) (y ! t0 # take n (drop (Suc t0) y))
      = spec_state64 k F G H (x', V') (take n (drop (Suc t0) y))"
    by (simp add: spec_state64_def st)
  have "for_loop [t0..<t0 + Suc n] (kalman_body64 F G H y k) (x, V, e, r)
      = for_loop [Suc t0..<Suc t0 + n] (kalman_body64 F G H y k) (x', V', e[t0 := e0], r[t0 := r0])"
    by (simp only: range for_loop.simps body ebind_Inr)
  also note IH
  finally show ?case
    unfolding ys state
    using t0 by (simp add: st take_Suc_update split_beta)
qed

lemma length_spec_filter64:
  "length (fst (spec_filter64 k F G H s ys)) = length ys \<and> length (snd (spec_filter64 k F G H s ys)) = length ys"
  by (induction ys arbitrary: s) (simp_all add: split_beta)

lemma smul64_eye_100: "smul64 (eye k) (Fin 100) = tab k k (\<lambda>i j. if i = j then Fin 100 else Fin 0)"
  unfolding eye_tab smul64_tab by (rule tab_cong) (simp add: fmul64_def rnd_defs)

lemma kalman_filter64_spec:
  assumes "0 < k" "is_mat k k F" "is_mat k 1 G" "is_mat 1 k H" "N \<le> length y"
  shows "kalman_filter64 F G H N y k = Inr (spec_kalman64 k F G H (take N y))"
proof -
  have "for_loop [0..<0 + N] (kalman_body64 F G H y k)
          (tab k 1 (\<lambda>i j. Fin 0), tab k k (\<lambda>i j. if i = j then Fin 100 else Fin 0),
           replicate N (Fin 0), replicate N (Fin 0))
      = Inr (fst (spec_state64 k F G H (tab k 1 (\<lambda>i j. Fin 0), tab k k (\<lambda>i j. if i = j then Fin 100 else Fin 0)) (take N (drop 0 y))),
           snd (spec_state64 k F G H (tab k 1 (\<lambda>i j. Fin 0), tab k k (\<lambda>i j. if i = j then Fin 100 else Fin 0)) (take N (drop 0 y))),
           take 0 (replicate N (Fin 0)) @ fst (spec_filter64 k F G H (tab k 1 (\<lambda>i j. Fin 0), tab k k (\<lambda>i j. if i = j then Fin 100 else Fin 0)) (take N (drop 0 y))) @ drop (0 + N) (replicate N (Fin 0)),
           take 0 (replicate N (Fin 0)) @ snd (spec_filter64 k F G H (tab k 1 (\<lambda>i j. Fin 0), tab k k (\<lambda>i j. if i = j then Fin 100 else Fin 0)) (take N (drop 0 y))) @ drop (0 + N) (replicate N (Fin 0)))"
    using assms by (intro loop64_spec) auto
  then show ?thesis
    by (simp add: kalman_filter64_def kalman_init64_def for_range_def zeros_tab smul64_eye_100 spec_kalman64_def)
qed

section \<open>The float64 filter on large coefficients\<close>

text \<open>
  The coefficient vector \<open>(1/2, 0, 0, 2\<^sup>3\<^sup>0, 2\<^sup>5\<^sup>0)\<close> and four observations equal to 1: the
  matrices the builder returns, and the loop's variables \<open>(x, V, e, r)\<close> after each of its
  four steps, in float64 arithmetic.
\<close>

lemmas eval64_defs = ebind_def getitem_def setitem_def
  zeros_def eye_def nrows_def ncols_def kalman_init64_def kalman_body64_def
  predict_cov64_def matmul64_def mmul64_def mT_def column_def dot64_def smul64_def sdiv64_def
  madd64_def msub64_def ewise_def bdim_def bget_def tab_def item_def fsub_def
  fadd64_def fsub64_def fmul64_def fdiv64_def
  upt_conv_Cons numeral_3_eq_3 numeral_2_eq_2


lemma for_range_4:
  "for_range 4 body s = ebind (ebind (ebind (body 0 s) (body 1)) (body 2)) (body 3)"
  by (simp add: numeral_eq_Suc for_range_Suc)

lemma builder_large:
  "initialize_FGHQ (take 3 [Fin (1 / 2), Fin 0, Fin 0, Fin 1073741824, Fin 1125899906842624])
          (take 2 (drop 3 [Fin (1 / 2), Fin 0, Fin 0, Fin 1073741824, Fin 1125899906842624]))
   = Inr ([[Fin (1 / 2), Fin 1, Fin 0], [Fin 0, Fin 0, Fin 1], [Fin 0, Fin 0, Fin 0]],
          [[Fin 1], [Fin (- 1073741824)], [Fin (- 1125899906842624)]], [[Fin 1, Fin 0, Fin 0]],
          [[Fin 1, Fin 0, Fin 0], [Fin 0, Fin 1, Fin 0], [Fin 0, Fin 0, Fin 1]])"
  by (simp add: eval_defs)

lemma init64_4:
  "kalman_init64 4 3
   = ([[Fin 0], [Fin 0], [Fin 0]],
     [[Fin 100, Fin 0, Fin 0], [Fin 0, Fin 100, Fin 0], [Fin 0, Fin 0, Fin 100]],
     [Fin 0, Fin 0, Fin 0, Fin 0],
     [Fin 0, Fin 0, Fin 0, Fin 0])"
  by (simp add: kalman_init64_def zeros_def eye_def smul64_def fmul64_def rnd_defs upt_conv_Cons
        numeral_eq_Suc)

lemma step64_0:
  "kalman_body64 [[Fin (1 / 2), Fin 1, Fin 0], [Fin 0, Fin 0, Fin 1], [Fin 0, Fin 0, Fin 0]]
      [[Fin 1], [Fin (- 1073741824)], [Fin (- 1125899906842624)]] [[Fin 1, Fin 0, Fin 0]]
      [Fin 1, Fin 1, Fin 1, Fin 1] 3 0
     ([[Fin 0], [Fin 0], [Fin 0]],
      [[Fin 100, Fin 0, Fin 0], [Fin 0, Fin 100, Fin 0], [Fin 0, Fin 0, Fin 100]],
      [Fin 0, Fin 0, Fin 0, Fin 0],
      [Fin 0, Fin 0, Fin 0, Fin 0])
   = Inr ([[Fin 1], [Fin (- (285942833483841 / 33554432))], [Fin (- (285942833483841 / 32))]],
      [[Fin 0, Fin 0, Fin 0], [Fin 0, Fin 1143771333935364096, Fin 1199331170252608342327296],
       [Fin 0, Fin 1199331170252608342327296, Fin 1257589881178799045164186730496]],
      [Fin 1, Fin 0, Fin 0, Fin 0],
      [Fin 126, Fin 0, Fin 0, Fin 0])"
  by (simp add: eval64_defs rnd_defs)

lemma step64_1:
  "kalman_body64 [[Fin (1 / 2), Fin 1, Fin 0], [Fin 0, Fin 0, Fin 1], [Fin 0, Fin 0, Fin 0]]
      [[Fin 1], [Fin (- 1073741824)], [Fin (- 1125899906842624)]] [[Fin 1, Fin 0, Fin 0]]
      [Fin 1, Fin 1, Fin 1, Fin 1] 3 1
     ([[Fin 1], [Fin (- (285942833483841 / 33554432))], [Fin (- (285942833483841 / 32))]],
      [[Fin 0, Fin 0, Fin 0], [Fin 0, Fin 1143771333935364096, Fin 1199331170252608342327296],
       [Fin 0, Fin 1199331170252608342327296, Fin 1257589881178799045164186730496]],
      [Fin 1, Fin 0, Fin 0, Fin 0],
      [Fin 126, Fin 0, Fin 0, Fin 0])
   = Inr ([[Fin 1], [Fin (67108863 / 128)], [Fin (- (4611686289010327 / 549755813888))]],
      [[Fin 0, Fin 0, Fin 0], [Fin 0, Fin 1155173304420532224, Fin 1210106411235346586009600],
       [Fin 0, Fin 1210106411235346586009600, Fin 1267650600228229401496703205376]],
      [Fin 1, Fin (285942850261057 / 33554432), Fin 0, Fin 0],
      [Fin 126, Fin 1143771333935364096, Fin 0, Fin 0])"
  by (simp add: eval64_defs rnd_defs)

lemma step64_2:
  "kalman_body64 [[Fin (1 / 2), Fin 1, Fin 0], [Fin 0, Fin 0, Fin 1], [Fin 0, Fin 0, Fin 0]]
      [[Fin 1], [Fin (- 1073741824)], [Fin (- 1125899906842624)]] [[Fin 1, Fin 0, Fin 0]]
      [Fin 1, Fin 1, Fin 1, Fin 1] 3 2
     ([[Fin 1], [Fin (67108863 / 128)], [Fin (- (4611686289010327 / 549755813888))]],
      [[Fin 0, Fin 0, Fin 0], [Fin 0, Fin 1155173304420532224, Fin 1210106411235346586009600],
       [Fin 0, Fin 1210106411235346586009600, Fin 1267650600228229401496703205376]],
      [Fin 1, Fin (285942850261057 / 33554432), Fin 0, Fin 0],
      [Fin 126, Fin 1143771333935364096, Fin 0, Fin 0])
   = Inr ([[Fin 1], [Fin (- (4499205864944325 / 8192))], [Fin (8989632654310721 / 17592186044416)]],
      [[Fin 0, Fin 0, Fin 0],
       [Fin 0, Fin (- 1206568083878709104214016), Fin 1210105260561252336271360],
       [Fin 0, Fin 1210105260561252336271360, Fin 1267650600228229401496703205376]],
      [Fin 1, Fin (285942850261057 / 33554432), Fin (- (67108799 / 128)), Fin 0],
      [Fin 126, Fin 1143771333935364096, Fin 1155173304420532224, Fin 0])"
  by (simp add: eval64_defs rnd_defs)

lemma step64_3:
  "kalman_body64 [[Fin (1 / 2), Fin 1, Fin 0], [Fin 0, Fin 0, Fin 1], [Fin 0, Fin 0, Fin 0]]
      [[Fin 1], [Fin (- 1073741824)], [Fin (- 1125899906842624)]] [[Fin 1, Fin 0, Fin 0]]
      [Fin 1, Fin 1, Fin 1, Fin 1] 3 3
     ([[Fin 1], [Fin (- (4499205864944325 / 8192))], [Fin (8989632654310721 / 17592186044416)]],
      [[Fin 0, Fin 0, Fin 0],
       [Fin 0, Fin (- 1206568083878709104214016), Fin 1210105260561252336271360],
       [Fin 0, Fin 1210105260561252336271360, Fin 1267650600228229401496703205376]],
      [Fin 1, Fin (285942850261057 / 33554432), Fin (- (67108799 / 128)), Fin 0],
      [Fin 126, Fin 1143771333935364096, Fin 1155173304420532224, Fin 0])
   = Inr ([[Fin 1], [Fin (- (2256197869484913 / 4096))], [Fin (563499711555077 / 1099511627776)]],
      [[Fin 0, Fin 0, Fin 0],
       [Fin 0, Fin 1267651813882189113717812101120, Fin 1208925818485428585496576],
       [Fin (- (1 / 8)), Fin 1208925818485428585496576, Fin 1267650600228229401496703205376]],
      [Fin 1, Fin (285942850261057 / 33554432), Fin (- (67108799 / 128)), Fin (4499205864948421 / 8192)],
      [Fin 126, Fin 1143771333935364096, Fin 1155173304420532224, Fin (- 1206568083878709104214016)])"
  by (simp add: eval64_defs rnd_defs)


lemma loop64_4:
  "for_range 4 (kalman_body64 [[Fin (1 / 2), Fin 1, Fin 0], [Fin 0, Fin 0, Fin 1],
                               [Fin 0, Fin 0, Fin 0]]
      [[Fin 1], [Fin (- 1073741824)], [Fin (- 1125899906842624)]] [[Fin 1, Fin 0, Fin 0]]
      [Fin 1, Fin 1, Fin 1, Fin 1] 3) (kalman_init64 4 3)
   = Inr ([[Fin 1], [Fin (- (2256197869484913 / 4096))], [Fin (563499711555077 / 1099511627776)]],
      [[Fin 0, Fin 0, Fin 0],
       [Fin 0, Fin 1267651813882189113717812101120, Fin 1208925818485428585496576],
       [Fin (- (1 / 8)), Fin 1208925818485428585496576, Fin 1267650600228229401496703205376]],
      [Fin 1, Fin (285942850261057 / 33554432), Fin (- (67108799 / 128)), Fin (4499205864948421 / 8192)],
      [Fin 126, Fin 1143771333935364096, Fin 1155173304420532224, Fin (- 1206568083878709104214016)])"
  unfolding for_range_4 init64_4 step64_0 step64_1 step64_2 step64_3 ebind_Inr
  by (rule refl)


section \<open>Claims that rounding decides\<close>






text \<open>
  C4, as claimed: when an innovation variance \<open>r[t]\<close> is not positive, the recursion
  fails with a NumericalInstability error instead of dividing by it or letting it reach
  the logarithm. It does not. For the coefficients and observations above, \<open>r[3]\<close> is
  \<open>- 1206568083878709104214016\<close> in float64 arithmetic (in exact arithmetic every \<open>r[t]\<close>
  is at least 1); the filter returns \<open>e\<close> and \<open>r\<close> all the same, and the logarithm of
  \<open>r[3]\<close>, which the likelihood takes, is NaN.
\<close>

theorem kalman_negative_variance:
  "initialize_FGHQ (take 3 [Fin (1 / 2), Fin 0, Fin 0, Fin 1073741824, Fin 1125899906842624])
          (take 2 (drop 3 [Fin (1 / 2), Fin 0, Fin 0, Fin 1073741824, Fin 1125899906842624]))
       = Inr ([[Fin (1 / 2), Fin 1, Fin 0], [Fin 0, Fin 0, Fin 1], [Fin 0, Fin 0, Fin 0]],
              [[Fin 1], [Fin (- 1073741824)], [Fin (- 1125899906842624)]], [[Fin 1, Fin 0, Fin 0]],
              [[Fin 1, Fin 0, Fin 0], [Fin 0, Fin 1, Fin 0], [Fin 0, Fin 0, Fin 1]])
   \<and> kalman_filter64 [[Fin (1 / 2), Fin 1, Fin 0], [Fin 0, Fin 0, Fin 1], [Fin 0, Fin 0, Fin 0]]
         [[Fin 1], [Fin (- 1073741824)], [Fin (- 1125899906842624)]] [[Fin 1, Fin 0, Fin 0]]
         4 [Fin 1, Fin 1, Fin 1, Fin 1] 3
       = Inr ([Fin 1, Fin (285942850261057 / 33554432), Fin (- (67108799 / 128)), Fin (4499205864948421 / 8192)],
              [Fin 126, Fin 1143771333935364096, Fin 1155173304420532224, Fin (- 1206568083878709104214016)])
   \<and> [Fin 126, Fin 1143771333935364096, Fin 1155173304420532224, Fin (- 1206568083878709104214016)] ! 3
       = Fin (- 1206568083878709104214016)
   \<and> flog (Fin (- 1206568083878709104214016)) = NaN"
  using builder_large loop64_4 by (simp add: kalman_filter64_def)

text \<open>
  C4, amended: the Kalman recursion makes no check of \<open>r[t]\<close> and has no
  NumericalInstability error. For every coefficient vector of at least three entries and
  at least \<open>N\<close> observations it raises nothing: in float64 arithmetic it computes the
  unguarded recursion (\<open>spec_kalman64\<close>, whose gain is the quotient by \<open>r[t]\<close> whatever
  \<open>r[t]\<close> is) and returns \<open>e\<close> and \<open>r\<close> of length \<open>N\<close>. An \<open>r[t] \<le> 0\<close>, which rounding can
  produce, is returned as it is, and its logarithm is NaN, or \<open>- \<infinity>\<close> for 0, not an
  error.
\<close>

theorem kalman_filter64_unguarded:
  assumes "3 \<le> length theta" and "N \<le> length y"
  shows "\<exists>F G H Q e r.
       initialize_FGHQ (take 3 theta) (take 2 (drop 3 theta)) = Inr (F, G, H, Q)
     \<and> kalman_filter64 F G H N y 3 = Inr (e, r)
     \<and> (e, r) = spec_kalman64 3 F G H (take N y)
     \<and> length e = N \<and> length r = N
     \<and> (\<forall>t<N. \<forall>c. r ! t = Fin c \<longrightarrow> c \<le> 0 \<longrightarrow> flog (r ! t) = NaN \<or> flog (r ! t) = NInf)"
proof -
  note b = builder_three [OF assms(1)]
  define F where "F = spec_F (take 3 theta) (take 2 (drop 3 theta))"
  define G where "G = spec_G (take 3 theta) (take 2 (drop 3 theta))"
  define H where "H = spec_H (take 3 theta) (take 2 (drop 3 theta))"
  obtain e r where er: "spec_kalman64 3 F G H (take N y) = (e, r)"
    by (cases "spec_kalman64 3 F G H (take N y)")
  have run: "kalman_filter64 F G H N y 3 = Inr (e, r)"
    unfolding F_def G_def H_def er [unfolded F_def G_def H_def, symmetric]
    using assms(2) by (intro kalman_filter64_spec b) auto
  have "length (fst (spec_kalman64 3 F G H (take N y))) = length (take N y)"
    "length (snd (spec_kalman64 3 F G H (take N y))) = length (take N y)"
    by (simp_all add: spec_kalman64_def length_spec_filter64)
  then have len: "length e = N" "length r = N"
    using assms(2) by (simp_all add: er)
  have "flog (r ! t) = NaN \<or> flog (r ! t) = NInf" if "r ! t = Fin c" "c \<le> 0" for t c
    using that by simp
  with b(1) run er len show ?thesis
    unfolding F_def G_def H_def by auto
qed

theorem kalman_filter64_unguarded_witness:
  "3 \<le> length [Fin (1 / 2), Fin 0, Fin 0, Fin 1073741824, Fin 1125899906842624]
   \<and> 4 \<le> length [Fin 1, Fin 1, Fin 1, Fin 1]
   \<and> (\<exists>F G H Q e r.
        initialize_FGHQ (take 3 [Fin (1 / 2), Fin 0, Fin 0, Fin 1073741824, Fin 1125899906842624])
          (take 2 (drop 3 [Fin (1 / 2), Fin 0, Fin 0, Fin 1073741824, Fin 1125899906842624])) = Inr (F, G, H, Q)
      \<and> kalman_filter64 F G H 4 [Fin 1, Fin 1, Fin 1, Fin 1] 3 = Inr (e, r)
      \<and> (e, r) = spec_kalman64 3 F G H [Fin 1, Fin 1, Fin 1, Fin 1]
      \<and> r = [Fin 126, Fin 1143771333935364096, Fin 1155173304420532224, Fin (- 1206568083878709104214016)]
      \<and> flog (r ! 3) = NaN)"
proof -
  have h: "3 \<le> length [Fin (1 / 2), Fin 0, Fin 0, Fin 1073741824, Fin 1125899906842624]"
    "4 \<le> length [Fin 1, Fin 1, Fin 1, Fin 1]"
    by simp_all
  have v: "kalman_filter64 [[Fin (1 / 2), Fin 1, Fin 0], [Fin 0, Fin 0, Fin 1],
                            [Fin 0, Fin 0, Fin 0]]
         [[Fin 1], [Fin (- 1073741824)], [Fin (- 1125899906842624)]] [[Fin 1, Fin 0, Fin 0]]
         4 [Fin 1, Fin 1, Fin 1, Fin 1] 3
       = Inr ([Fin 1, Fin (285942850261057 / 33554432), Fin (- (67108799 / 128)), Fin (4499205864948421 / 8192)],
              [Fin 126, Fin 1143771333935364096, Fin 1155173304420532224, Fin (- 1206568083878709104214016)])"
    using loop64_4 by (simp add: kalman_filter64_def)
  from kalman_filter64_unguarded [OF h] obtain F G H Q e r where
    b: "initialize_FGHQ (take 3 [Fin (1 / 2), Fin 0, Fin 0, Fin 1073741824, Fin 1125899906842624])
          (take 2 (drop 3 [Fin (1 / 2), Fin 0, Fin 0, Fin 1073741824, Fin 1125899906842624])) = Inr (F, G, H, Q)"
    and k: "kalman_filter64 F G H 4 [Fin 1, Fin 1, Fin 1, Fin 1] 3 = Inr (e, r)"
    and s: "(e, r) = spec_kalman64 3 F G H (take 4 [Fin 1, Fin 1, Fin 1, Fin 1])"
    by blast
  from b have FGH: "F = [[Fin (1 / 2), Fin 1, Fin 0], [Fin 0, Fin 0, Fin 1], [Fin 0, Fin 0, Fin 0]]"
    "G = [[Fin 1], [Fin (- 1073741824)], [Fin (- 1125899906842624)]]" "H = [[Fin 1, Fin 0, Fin 0]]"
    unfolding builder_large by simp_all
  from k v have r: "r = [Fin 126, Fin 1143771333935364096, Fin 1155173304420532224, Fin (- 1206568083878709104214016)]"
    unfolding FGH by simp
  show ?thesis
    apply (intro conjI h)
    apply (rule exI [of _ F], rule exI [of _ G], rule exI [of _ H], rule exI [of _ Q])
    apply (rule exI [of _ e], rule exI [of _ r])
    using b k s r by simp
qed

section \<open>The objective on the store computes the objective and writes to no array it was given\<close>

lemma hbind_hret [simp]: "hbind (hret v) f = f v"
  by (rule ext) (simp add: hbind_def hret_def)

lemma unchanged_refl [simp]: "unchanged s s"
  by (simp add: unchanged_def)

lemma take_keeps_length: "take n xs = ys \<Longrightarrow> length ys = n \<Longrightarrow> n \<le> length xs"
  by (metis length_take min.absorb_iff2 min.cobounded1 order_refl)

lemma unchanged_lengths:
  "unchanged s s' \<Longrightarrow> length (vecs s) \<le> length (vecs s') \<and> length (mats s) \<le> length (mats s')"
  unfolding unchanged_def by (metis take_keeps_length)

lemma unchanged_trans: "unchanged s s' \<Longrightarrow> unchanged s' s'' \<Longrightarrow> unchanged s s''"
proof -
  assume a: "unchanged s s'" and b: "unchanged s' s''"
  have l: "length (vecs s) \<le> length (vecs s')" "length (mats s) \<le> length (mats s')"
    using unchanged_lengths [OF a] by auto
  have "take (length (vecs s)) (vecs s'') = take (length (vecs s)) (take (length (vecs s')) (vecs s''))"
    using l by (simp add: min_def)
  moreover have "take (length (mats s)) (mats s'') = take (length (mats s)) (take (length (mats s')) (mats s''))"
    using l by (simp add: min_def)
  ultimately show ?thesis
    using a b unfolding unchanged_def by simp
qed

lemma unchanged_nth_vecs: "unchanged s s' \<Longrightarrow> p < length (vecs s) \<Longrightarrow> vecs s' ! p = vecs s ! p"
  unfolding unchanged_def by (metis nth_take)

lemma unchanged_new_mat: "unchanged s0 s \<Longrightarrow> unchanged s0 (s\<lparr>mats := mats s @ ms\<rparr>)"
  using unchanged_lengths [of s0 s] by (simp add: unchanged_def)

lemma unchanged_new_vec: "unchanged s0 s \<Longrightarrow> unchanged s0 (s\<lparr>vecs := vecs s @ vs\<rparr>)"
  using unchanged_lengths [of s0 s] by (simp add: unchanged_def)

lemma unchanged_write_vec:
  "unchanged s0 s \<Longrightarrow> length (vecs s0) \<le> p \<Longrightarrow> unchanged s0 (s\<lparr>vecs := (vecs s)[p := v]\<rparr>)"
  by (simp add: unchanged_def take_update_cancel)

lemma unchanged_write_mat:
  "unchanged s0 s \<Longrightarrow> length (mats s0) \<le> p \<Longrightarrow> unchanged s0 (s\<lparr>mats := (mats s)[p := A]\<rparr>)"
  by (simp add: unchanged_def take_update_cancel)

lemma h_kalman_body_sim:
  assumes "kinv s0 F G H e r Fm Gm Hm s (x, V)"
  shows "case h_kalman_body F G H e r k t (x, V) s of (res, s') \<Rightarrow>
           unchanged s0 s' \<and>
           (case kalman_body Fm Gm Hm (vecs s0 ! g_y s0) k t
                   (mats s ! x, mats s ! V, vecs s ! e, vecs s ! r) of
              Inl err \<Rightarrow> res = Inl err
            | Inr (x', V', e', r') \<Rightarrow>
                (\<exists>px pV. res = Inr (px, pV) \<and> kinv s0 F G H e r Fm Gm Hm s' (px, pV)
                   \<and> mats s' ! px = x' \<and> mats s' ! pV = V' \<and> vecs s' ! e = e' \<and> vecs s' ! r = r'))"
proof -
  have y: "vecs s ! g_y s = vecs s0 ! g_y s0" "g_y s \<noteq> e" "g_y s \<noteq> r"
    using assms unchanged_nth_vecs [of s0 s "g_y s0"] by (auto simp: kinv_def unchanged_def)
  have l: "length (mats s0) \<le> length (mats s)"
    using assms unchanged_lengths [of s0 s] by (simp add: kinv_def)
  show ?thesis
    using assms y l unfolding h_kalman_body_def kalman_body_def
    by (auto simp: kinv_def hbind_def eval_expr_def new_mat_def write_vec_def hret_def nth_append
          setitem_def getitem_def ebind_def Let_def unchanged_def take_update_cancel
          split: sum.splits prod.splits if_splits)
qed

lemma h_kalman_loop_sim:
  assumes "kinv s0 F G H e r Fm Gm Hm s c"
  shows "case h_for_loop ts (h_kalman_body F G H e r k) c s of (res, s') \<Rightarrow>
           unchanged s0 s' \<and>
           (case for_loop ts (kalman_body Fm Gm Hm (vecs s0 ! g_y s0) k)
                   (mats s ! fst c, mats s ! snd c, vecs s ! e, vecs s ! r) of
              Inl err \<Rightarrow> res = Inl err
            | Inr (x', V', e', r') \<Rightarrow>
                (\<exists>c'. res = Inr c' \<and> g_N s' = g_N s0 \<and> vecs s' ! e = e' \<and> vecs s' ! r = r'))"
  using assms
proof (induction ts arbitrary: s c)
  case Nil
  then show ?case
    by (simp add: hret_def kinv_def unchanged_def split: prod.splits)
next
  case (Cons t ts)
  obtain x V where c: "c = (x, V)"
    by (cases c)
  obtain res s1 where run: "h_kalman_body F G H e r k t (x, V) s = (res, s1)"
    by (cases "h_kalman_body F G H e r k t (x, V) s")
  note body = h_kalman_body_sim [OF Cons.prems [unfolded c], of k t, unfolded run prod.case]
  show ?case
  proof (cases "kalman_body Fm Gm Hm (vecs s0 ! g_y s0) k t (mats s ! x, mats s ! V, vecs s ! e, vecs s ! r)")
    case (Inl err)
    then show ?thesis
      using body by (simp add: c hbind_def run)
  next
    case (Inr a)
    obtain x' V' e' r' where a: "a = (x', V', e', r')"
      by (cases a)
    from body Inr a obtain px pV where
      res: "res = Inr (px, pV)" and inv: "kinv s0 F G H e r Fm Gm Hm s1 (px, pV)"
      and abs: "mats s1 ! px = x'" "mats s1 ! pV = V'" "vecs s1 ! e = e'" "vecs s1 ! r = r'"
      by auto
    show ?thesis
      using Cons.IH [OF inv] Inr
      by (simp add: c hbind_def run res a abs)
  qed
qed

lemma ebind_eq_Inr: "ebind m f = Inr v \<longleftrightarrow> (\<exists>u. m = Inr u \<and> f u = Inr v)"
  by (cases m) simp_all

lemma h_for_loop_mat:
  assumes "for_loop ns body A = Inr A'" and "m < length (mats s)" and "mats s ! m = A"
    and step: "\<And>i M B. i \<in> set ns \<Longrightarrow> m < length M \<Longrightarrow> body i (M ! m) = Inr B
          \<Longrightarrow> hbody i () (s\<lparr>mats := M\<rparr>) = (Inr (), s\<lparr>mats := M[m := B]\<rparr>)"
  shows "h_for_loop ns hbody () s = (Inr (), s\<lparr>mats := (mats s)[m := A']\<rparr>)"
proof -
  have "m < length M \<Longrightarrow> for_loop ns body (M ! m) = Inr A'
      \<Longrightarrow> h_for_loop ns hbody () (s\<lparr>mats := M\<rparr>) = (Inr (), s\<lparr>mats := M[m := A']\<rparr>)" for M
    using step
  proof (induction ns arbitrary: M)
    case Nil
    then show ?case
      by (simp add: hret_def) (metis list_update_id)
  next
    case (Cons i ns)
    from Cons.prems(2) obtain B where B: "body i (M ! m) = Inr B" "for_loop ns body B = Inr A'"
      by (auto simp: ebind_eq_Inr)
    have "hbody i () (s\<lparr>mats := M\<rparr>) = (Inr (), s\<lparr>mats := M[m := B]\<rparr>)"
      using Cons.prems(1,3) B(1) by simp
    moreover have "h_for_loop ns hbody () (s\<lparr>mats := M[m := B]\<rparr>)
        = (Inr (), s\<lparr>mats := M[m := B, m := A']\<rparr>)"
      using Cons.prems(1,3) B(2) by (intro Cons.IH) simp_all
    ultimately show ?case
      by (simp add: hbind_def)
  qed
  from this [of "mats s"] assms(1-3) show ?thesis
    by simp
qed

lemma hbind_run: "m s = (Inr v, s') \<Longrightarrow> hbind m f s = f v s'"
  by (simp add: hbind_def)

lemma h_initialize_FGHQ_run:
  assumes th: "vecs s ! p = th" and la: "sa + la \<le> length th" and lb: "sb + lb \<le> length th"
    and a: "a = take la (drop sa th)" and b: "b = take lb (drop sb th)"
  shows "h_initialize_FGHQ (View p sa la) (View p sb lb) s
         = (Inr (length (mats s), length (mats s) + 1, length (mats s) + 2, length (mats s) + 3),
            s\<lparr>mats := mats s
               @ [spec_F a b, spec_G a b, spec_H a b, eye (max (length a) (length b + 1))]\<rparr>)"
proof -
  define k where "k = max la (lb + 1)"
  define m where "m = length (mats s)"
  have len: "length a = la" "length b = lb"
    using la lb by (auto simp: a b)
  have nth: "\<And>i. i < la \<Longrightarrow> th ! (sa + i) = a ! i" "\<And>i. i < lb \<Longrightarrow> th ! (sb + i) = b ! i"
    using la lb by (auto simp: a b)
  from initialize_FGHQ_eq [of a b]
  obtain F1 G1 where
    F1: "for_range la (\<lambda>i F. ebind (getitem a i) (\<lambda>ai. setitem2 F i 0 ai)) (zeros k k) = Inr F1"
    and F2: "for_range (k - 1) (\<lambda>i F. setitem2 F i (i + 1) (Fin 1)) F1 = Inr (spec_F a b)"
    and G1: "for_range lb (\<lambda>i G. ebind (getitem b i) (\<lambda>bi. setitem2 G (i + 1) 0 (fneg bi))) (zeros k 1) = Inr G1"
    and G2: "setitem2 G1 0 0 (Fin 1) = Inr (spec_G a b)"
    and H1: "setitem2 (zeros 1 k) 0 0 (Fin 1) = Inr (spec_H a b)"
    unfolding initialize_FGHQ_def Let_def len k_def [symmetric]
    by (auto simp: ebind_eq_Inr)
  define s3 where "s3 = s\<lparr>mats := mats s @ [zeros k k, zeros k 1, zeros 1 k]\<rparr>"
  have L1: "h_for_range la (\<lambda>i u. hbind (view_get (View p sa la) i) (\<lambda>ai. write_mat m i 0 ai)) () s3
      = (Inr (), s3\<lparr>mats := (mats s3)[m := F1]\<rparr>)"
    unfolding h_for_range_def
  proof (rule h_for_loop_mat [OF F1 [unfolded for_range_def]])
    show "m < length (mats s3)" "mats s3 ! m = zeros k k"
      by (simp_all add: s3_def m_def)
  next
    fix i M B
    assume "i \<in> set [0..<la]" "m < length M"
      "ebind (getitem a i) (\<lambda>ai. setitem2 (M ! m) i 0 ai) = Inr B"
    then show "hbind (view_get (View p sa la) i) (\<lambda>ai. write_mat m i 0 ai) (s3\<lparr>mats := M\<rparr>)
        = (Inr (), s3\<lparr>mats := M[m := B]\<rparr>)"
      using nth(1) [of i] by (simp add: hbind_def write_mat_def s3_def th len)
  qed
  define s4 where "s4 = s\<lparr>mats := mats s @ [F1, zeros k 1, zeros 1 k]\<rparr>"
  have s4: "s3\<lparr>mats := (mats s3)[m := F1]\<rparr> = s4"
    by (simp add: s3_def s4_def m_def)
  have L2: "h_for_range (k - 1) (\<lambda>i u. write_mat m i (i + 1) (Fin 1)) () s4
      = (Inr (), s4\<lparr>mats := (mats s4)[m := spec_F a b]\<rparr>)"
    unfolding h_for_range_def
  proof (rule h_for_loop_mat [OF F2 [unfolded for_range_def]])
    show "m < length (mats s4)" "mats s4 ! m = F1"
      by (simp_all add: s4_def m_def)
  next
    fix i M B
    assume "i \<in> set [0..<k - 1]" "m < length M" "setitem2 (M ! m) i (i + 1) (Fin 1) = Inr B"
    then show "write_mat m i (i + 1) (Fin 1) (s4\<lparr>mats := M\<rparr>) = (Inr (), s4\<lparr>mats := M[m := B]\<rparr>)"
      by (simp add: write_mat_def)
  qed
  define s5 where "s5 = s\<lparr>mats := mats s @ [spec_F a b, zeros k 1, zeros 1 k]\<rparr>"
  have s5: "s4\<lparr>mats := (mats s4)[m := spec_F a b]\<rparr> = s5"
    by (simp add: s4_def s5_def m_def)
  have L3: "h_for_range lb (\<lambda>i u. hbind (view_get (View p sb lb) i) (\<lambda>bi. write_mat (m + 1) (i + 1) 0 (fneg bi))) () s5
      = (Inr (), s5\<lparr>mats := (mats s5)[m + 1 := G1]\<rparr>)"
    unfolding h_for_range_def
  proof (rule h_for_loop_mat [OF G1 [unfolded for_range_def]])
    show "m + 1 < length (mats s5)" "mats s5 ! (m + 1) = zeros k 1"
      by (simp_all add: s5_def m_def nth_append)
  next
    fix i M B
    assume "i \<in> set [0..<lb]" "m + 1 < length M"
      "ebind (getitem b i) (\<lambda>bi. setitem2 (M ! (m + 1)) (i + 1) 0 (fneg bi)) = Inr B"
    then show "hbind (view_get (View p sb lb) i) (\<lambda>bi. write_mat (m + 1) (i + 1) 0 (fneg bi)) (s5\<lparr>mats := M\<rparr>)
        = (Inr (), s5\<lparr>mats := M[m + 1 := B]\<rparr>)"
      using nth(2) [of i] by (simp add: hbind_def write_mat_def s5_def th len)
  qed
  define s6 where "s6 = s\<lparr>mats := mats s @ [spec_F a b, G1, zeros 1 k]\<rparr>"
  have s6: "s5\<lparr>mats := (mats s5)[m + 1 := G1]\<rparr> = s6"
    by (simp add: s5_def s6_def m_def list_update_append)
  have W1: "write_mat (m + 1) 0 0 (Fin 1) s6
      = (Inr (), s\<lparr>mats := mats s @ [spec_F a b, spec_G a b, zeros 1 k]\<rparr>)"
    using G2 by (simp add: write_mat_def s6_def m_def nth_append list_update_append)
  have W2: "write_mat (m + 2) 0 0 (Fin 1) (s\<lparr>mats := mats s @ [spec_F a b, spec_G a b, zeros 1 k]\<rparr>)
      = (Inr (), s\<lparr>mats := mats s @ [spec_F a b, spec_G a b, spec_H a b]\<rparr>)"
    using H1 by (simp add: write_mat_def m_def nth_append list_update_append)
  have A3: "hbind (new_mat (zeros k k)) (\<lambda>F. hbind (new_mat (zeros k 1)) (\<lambda>G.
      hbind (new_mat (zeros 1 k)) (\<lambda>H. f F G H))) s = f m (m + 1) (m + 2) s3" for f
    by (simp add: hbind_def new_mat_def s3_def m_def)
  have R1: "hbind (h_for_range la (\<lambda>i u. hbind (view_get (View p sa la) i) (\<lambda>ai. write_mat m i 0 ai)) ()) f s3
      = f () s4" for f :: "unit \<Rightarrow> (nat \<times> nat \<times> nat \<times> nat) hm"
    by (simp only: hbind_def L1 s4 prod.case sum.case)
  have R2: "hbind (h_for_range (k - 1) (\<lambda>i u. write_mat m i (i + 1) (Fin 1)) ()) f s4
      = f () s5" for f :: "unit \<Rightarrow> (nat \<times> nat \<times> nat \<times> nat) hm"
    by (simp only: hbind_def L2 s5 prod.case sum.case)
  have R3: "hbind (h_for_range lb (\<lambda>i u. hbind (view_get (View p sb lb) i) (\<lambda>bi. write_mat (m + 1) (i + 1) 0 (fneg bi))) ()) f s5
      = f () s6" for f :: "unit \<Rightarrow> (nat \<times> nat \<times> nat \<times> nat) hm"
    by (simp only: hbind_def L3 s6 prod.case sum.case)
  have R4: "hbind (write_mat (m + 1) 0 0 (Fin 1)) f s6
      = f () (s\<lparr>mats := mats s @ [spec_F a b, spec_G a b, zeros 1 k]\<rparr>)"
    for f :: "unit \<Rightarrow> (nat \<times> nat \<times> nat \<times> nat) hm"
    by (simp only: hbind_def W1 prod.case sum.case)
  have R5: "hbind (write_mat (m + 2) 0 0 (Fin 1)) f (s\<lparr>mats := mats s @ [spec_F a b, spec_G a b, zeros 1 k]\<rparr>)
      = f () (s\<lparr>mats := mats s @ [spec_F a b, spec_G a b, spec_H a b]\<rparr>)"
    for f :: "unit \<Rightarrow> (nat \<times> nat \<times> nat \<times> nat) hm"
    by (simp only: hbind_def W2 prod.case sum.case)
  show ?thesis
    unfolding h_initialize_FGHQ_def Let_def view_len.simps k_def [symmetric] A3 R1 R2 R3 R4 R5
    by (simp add: hbind_def new_mat_def hret_def m_def len k_def)
qed

lemma hbind_new_mat: "hbind (new_mat A) f s = f (length (mats s)) (s\<lparr>mats := mats s @ [A]\<rparr>)"
  by (simp add: hbind_def new_mat_def)

lemma hbind_new_vec: "hbind (new_vec v) f s = f (length (vecs s)) (s\<lparr>vecs := vecs s @ [v]\<rparr>)"
  by (simp add: hbind_def new_vec_def)

lemma hbind_eval_Inr: "hbind (eval_expr (\<lambda>s. Inr (g s))) f s = f (g s) s"
  by (simp add: hbind_def eval_expr_def)

lemma h_kalman_filter_sim:
  assumes y: "g_y s < length (vecs s)"
    and F: "F < length (mats s)" and G: "G < length (mats s)" and H: "H < length (mats s)"
  shows "case h_kalman_filter F G H k s of (res, s') \<Rightarrow>
           unchanged s s' \<and>
           (case kalman_filter (mats s ! F) (mats s ! G) (mats s ! H) (g_N s) (vecs s ! g_y s) k of
              Inl err \<Rightarrow> res = Inl err
            | Inr (e', r') \<Rightarrow> (\<exists>e r. res = Inr (e, r) \<and> vecs s' ! e = e' \<and> vecs s' ! r = r'))"
proof -
  define m where "m = length (mats s)"
  define nv where "nv = length (vecs s)"
  define N where "N = g_N s"
  define s1 where "s1 = s\<lparr>mats := mats s @ [zeros k 1, smul (eye k) (Fin 100)],
      vecs := vecs s @ [replicate N (Fin 0), replicate N (Fin 0)]\<rparr>"
  have P: "h_kalman_filter F G H k s
      = hbind (h_for_range N (h_kalman_body F G H nv (nv + 1) k) (m, m + 1)) (\<lambda>c. hret (nv, nv + 1)) s1"
    unfolding h_kalman_filter_def
    by (simp add: hbind_new_mat hbind_new_vec hbind_eval_Inr s1_def m_def nv_def N_def)
  have K: "kinv s F G H nv (nv + 1) (mats s ! F) (mats s ! G) (mats s ! H) s1 (m, m + 1)"
    using y F G H by (simp add: kinv_def s1_def unchanged_def m_def nv_def nth_append)
  have init: "(mats s1 ! fst (m, m + 1), mats s1 ! snd (m, m + 1), vecs s1 ! nv, vecs s1 ! (nv + 1))
      = kalman_init N k"
    by (simp add: s1_def m_def nv_def nth_append kalman_init_def)
  obtain res1 s2 where run: "h_for_loop [0..<N] (h_kalman_body F G H nv (nv + 1) k) (m, m + 1) s1 = (res1, s2)"
    by (cases "h_for_loop [0..<N] (h_kalman_body F G H nv (nv + 1) k) (m, m + 1) s1")
  note L = h_kalman_loop_sim [OF K, of "[0..<N]" k, unfolded run prod.case init]
  show ?thesis
  proof (cases "for_loop [0..<N] (kalman_body (mats s ! F) (mats s ! G) (mats s ! H) (vecs s ! g_y s) k) (kalman_init N k)")
    case (Inl err)
    then show ?thesis
      using L unfolding P N_def [symmetric]
      by (simp add: hbind_def h_for_range_def run [simplified] kalman_filter_def for_range_def)
  next
    case (Inr v)
    obtain x' V' e' r' where v: "v = (x', V', e', r')"
      by (cases v)
    from L Inr v obtain c' where c': "res1 = Inr c'" "vecs s2 ! nv = e'" "vecs s2 ! (nv + 1) = r'"
      and u: "unchanged s s2"
      by auto
    show ?thesis
      using u unfolding P N_def [symmetric]
      by (simp add: hbind_def h_for_range_def run [simplified] c' [simplified] Inr v hret_def kalman_filter_def for_range_def)
  qed
qed

lemma h_obj_func_likelihood_sim:
  assumes y: "g_y s < length (vecs s)" and theta: "theta < length (vecs s)"
  shows "case h_obj_func_likelihood theta s of (res, s') \<Rightarrow>
           res = obj_func_likelihood (g_N s) (vecs s ! g_y s) (vecs s ! theta) \<and> unchanged s s'"
proof -
  define th where "th = vecs s ! theta"
  define n where "n = length th"
  define a where "a = take 3 th"
  define b where "b = take 2 (drop 3 th)"
  define m where "m = length (mats s)"
  define N where "N = g_N s"
  define yv where "yv = vecs s ! g_y s"
  have ab: "a = take (min 3 n) (drop 0 th)" "b = take (min 5 n - min 3 n) (drop (min 3 n) th)"
    by (auto simp: a_def b_def n_def min_def)
  have S1: "slice theta 0 3 s = (Inr (View theta 0 (min 3 n)), s)"
    by (simp add: slice_def n_def th_def Let_def)
  have S2: "slice theta 3 5 s = (Inr (View theta (min 3 n) (min 5 n - min 3 n)), s)"
    by (simp add: slice_def n_def th_def Let_def)
  define Q where "Q = eye (max (length a) (length b + 1))"
  define s1 where "s1 = s\<lparr>mats := mats s @ [spec_F a b, spec_G a b, spec_H a b, Q]\<rparr>"
  have B: "h_initialize_FGHQ (View theta 0 (min 3 n)) (View theta (min 3 n) (min 5 n - min 3 n)) s
      = (Inr (m, m + 1, m + 2, m + 3), s1)"
    unfolding m_def Q_def s1_def
    by (rule h_initialize_FGHQ_run [OF th_def [symmetric] _ _ ab]) (auto simp: n_def)
  have P: "h_obj_func_likelihood theta s
      = hbind (h_kalman_filter m (m + 1) (m + 2) 3) (\<lambda>(e, r).
          hbind (eval_expr (\<lambda>s. Inr (profile_sigma (vecs s ! e) (vecs s ! r) (g_N s)))) (\<lambda>sigma_hat.
          hbind (eval_expr (\<lambda>s. Inr (log_likelihood sigma_hat (vecs s ! r)))) (\<lambda>log_lik.
          hret (fneg log_lik)))) s1"
    unfolding h_obj_func_likelihood_def Let_def
    by (simp add: hbind_def S1 S2 B)
  have u1: "unchanged s s1"
    by (simp add: s1_def unchanged_def)
  have pure: "obj_func_likelihood N yv th
      = ebind (kalman_filter (spec_F a b) (spec_G a b) (spec_H a b) N yv 3)
          (\<lambda>(e, r). Inr (fneg (log_likelihood (profile_sigma e r N) r)))"
    unfolding obj_func_likelihood_def Let_def a_def [symmetric] b_def [symmetric]
    by (simp add: initialize_FGHQ_eq)
  have s1: "g_y s1 < length (vecs s1)" "m < length (mats s1)" "m + 1 < length (mats s1)"
    "m + 2 < length (mats s1)" "mats s1 ! m = spec_F a b" "mats s1 ! (m + 1) = spec_G a b"
    "mats s1 ! (m + 2) = spec_H a b" "g_N s1 = N" "vecs s1 ! g_y s1 = yv"
    using y by (simp_all add: s1_def m_def nth_append N_def yv_def)
  obtain res1 s2 where run: "h_kalman_filter m (m + 1) (m + 2) 3 s1 = (res1, s2)"
    by (cases "h_kalman_filter m (m + 1) (m + 2) 3 s1")
  note L = h_kalman_filter_sim [OF s1(1-4), of 3, unfolded run prod.case s1]
  have u: "unchanged s s2"
    using L u1 by (auto intro: unchanged_trans)
  show ?thesis
  proof (cases "kalman_filter (spec_F a b) (spec_G a b) (spec_H a b) N yv 3")
    case (Inl err)
    then show ?thesis
      using L u unfolding P N_def [symmetric] yv_def [symmetric] th_def [symmetric] pure
      by (simp add: hbind_def run [simplified])
  next
    case (Inr v)
    obtain e' r' where v: "v = (e', r')"
      by (cases v)
    from L Inr v obtain e r where c': "res1 = Inr (e, r)" "vecs s2 ! e = e'" "vecs s2 ! r = r'"
      by auto
    have N2: "g_N s2 = N"
      using u by (simp add: unchanged_def N_def)
    show ?thesis
      using u unfolding P N_def [symmetric] yv_def [symmetric] th_def [symmetric] pure
      by (simp add: hbind_def run [simplified] c' Inr v eval_expr_def hret_def N2)
  qed
qed

section \<open>Claim about purity\<close>

text \<open>
  C9. Let \<open>theta\<close> and the global \<open>y\<close> be arrays of the store. A call of the objective
  returns what the function \<open>obj_func_likelihood\<close> of \<open>N\<close>, of the entries of \<open>y\<close> and of
  the entries of \<open>theta\<close> returns, an exception included; it leaves the globals and every
  array the store had before the call as they were, \<open>theta\<close> and \<open>y\<close> among them (the
  arrays it writes to are arrays it has allocated itself); and a second call, in the
  store the first one has left, returns the identical result.
\<close>

theorem objective_pure:
  assumes "g_y s < length (vecs s)" and "theta < length (vecs s)"
  shows "fst (h_obj_func_likelihood theta s)
           = obj_func_likelihood (g_N s) (vecs s ! g_y s) (vecs s ! theta)
         \<and> unchanged s (snd (h_obj_func_likelihood theta s))
         \<and> fst (h_obj_func_likelihood theta (snd (h_obj_func_likelihood theta s)))
           = fst (h_obj_func_likelihood theta s)"
proof -
  obtain res s' where run: "h_obj_func_likelihood theta s = (res, s')"
    by (cases "h_obj_func_likelihood theta s")
  have first: "res = obj_func_likelihood (g_N s) (vecs s ! g_y s) (vecs s ! theta)" "unchanged s s'"
    using h_obj_func_likelihood_sim [OF assms] by (simp_all add: run)
  have len: "length (vecs s) \<le> length (vecs s')"
    using unchanged_lengths [OF first(2)] by simp
  have same: "g_N s' = g_N s" "g_y s' = g_y s" "vecs s' ! g_y s = vecs s ! g_y s"
    "vecs s' ! theta = vecs s ! theta"
    using first(2) assms unchanged_nth_vecs [OF first(2)] by (simp_all add: unchanged_def)
  obtain res2 s'' where run2: "h_obj_func_likelihood theta s' = (res2, s'')"
    by (cases "h_obj_func_likelihood theta s'")
  have "g_y s' < length (vecs s')" "theta < length (vecs s')"
    using assms len same by simp_all
  from h_obj_func_likelihood_sim [OF this]
  have "res2 = obj_func_likelihood (g_N s) (vecs s ! g_y s) (vecs s ! theta)"
    by (simp add: run2 same)
  then show ?thesis
    using first by (simp add: run run2)
qed

theorem objective_pure_witness:
  "fst (h_obj_func_likelihood 1
          \<lparr>g_N = 2, g_y = 0,
           vecs = [[Fin 1, Fin 1], [Fin (1 / 2), Fin 0, Fin 0, Fin 0, Fin 0]], mats = []\<rparr>)
     = Inr (fneg (log_likelihood (Fin (265 / 50904)) [Fin 126, Fin 101]))
   \<and> unchanged
       \<lparr>g_N = 2, g_y = 0,
        vecs = [[Fin 1, Fin 1], [Fin (1 / 2), Fin 0, Fin 0, Fin 0, Fin 0]], mats = []\<rparr>
       (snd (h_obj_func_likelihood 1
          \<lparr>g_N = 2, g_y = 0,
           vecs = [[Fin 1, Fin 1], [Fin (1 / 2), Fin 0, Fin 0, Fin 0, Fin 0]], mats = []\<rparr>))
   \<and> fst (h_obj_func_likelihood 1
          (snd (h_obj_func_likelihood 1
             \<lparr>g_N = 2, g_y = 0,
              vecs = [[Fin 1, Fin 1], [Fin (1 / 2), Fin 0, Fin 0, Fin 0, Fin 0]], mats = []\<rparr>)))
     = Inr (fneg (log_likelihood (Fin (265 / 50904)) [Fin 126, Fin 101]))"
proof -
  have "profile_sigma [Fin 1, Fin (1 / 2)] [Fin 126, Fin 101] 2 = Fin (265 / 50904)"
    by (simp add: profile_sigma_def fsum_def)
  then have "obj_func_likelihood 2 [Fin 1, Fin 1] [Fin (1 / 2), Fin 0, Fin 0, Fin 0, Fin 0]
      = Inr (fneg (log_likelihood (Fin (265 / 50904)) [Fin 126, Fin 101]))"
    using obj_func_likelihood_eq [OF builder_half kalman_half] by simp
  then show ?thesis
    using objective_pure [of "\<lparr>g_N = 2, g_y = 0,
        vecs = [[Fin 1, Fin 1], [Fin (1 / 2), Fin 0, Fin 0, Fin 0, Fin 0]], mats = []\<rparr>" 1]
    by simp
qed

end
